theory Spec2Isabelle
  imports Complex_Main
begin

section \<open>Colour mapping\<close>

text \<open>
  \<^verbatim>\<open>MoonHighlighter.map_color\<close> (moon_highlighter.py) maps the colour value stored in
  the notes database to an RGB triple of floats. Python integers are unbounded, so the
  colour value is an \<open>int\<close>; \<open>%\<close> is the floor modulo and \<open>>>\<close> the floor shift
  (\<open>drop_bit\<close> on \<open>int\<close>). The channels are the quotients by \<open>255.0\<close>; they are
  modelled as the exact quotients in \<open>real\<close>.
\<close>

type_synonym color = "real \<times> real \<times> real"

definition color_map :: "int \<rightharpoonup> color" where
  "color_map =
     [1996532479 \<mapsto> (1, 1, 0),
      - 1996554240 \<mapsto> (0, 1, 0),
      2013265664 \<mapsto> (0, 0, 1),
      - 256 \<mapsto> (1, 0, 0),
      16711680 \<mapsto> (1, 0, 1)]"

definition map_color :: "int \<Rightarrow> color" where
  "map_color color_value =
     (case color_map color_value of
        Some c \<Rightarrow> c
      | None \<Rightarrow>
          (let r = real_of_int \<bar>color_value mod 256\<bar> / 255;
               g = real_of_int \<bar>drop_bit 8 color_value mod 256\<bar> / 255;
               b = real_of_int \<bar>drop_bit 16 color_value mod 256\<bar> / 255
           in (r, g, b)))"

text \<open>
  \<^verbatim>\<open>MoonHighlighterSimple.map_color\<close> (moon_highlighter_simple.py) has the same table
  with hexadecimal strings as values, and formats the three fallback bytes with
  \<^verbatim>\<open>f"#{r:02x}{g:02x}{b:02x}"\<close>. Every byte formatted is below 256, so
  \<^verbatim>\<open>02x\<close> prints exactly two lower-case digits.
\<close>

definition hex_digit :: "int \<Rightarrow> char" where
  "hex_digit d =
     (if d = 0 then CHR ''0'' else if d = 1 then CHR ''1'' else if d = 2 then CHR ''2''
      else if d = 3 then CHR ''3'' else if d = 4 then CHR ''4'' else if d = 5 then CHR ''5''
      else if d = 6 then CHR ''6'' else if d = 7 then CHR ''7'' else if d = 8 then CHR ''8''
      else if d = 9 then CHR ''9'' else if d = 10 then CHR ''a'' else if d = 11 then CHR ''b''
      else if d = 12 then CHR ''c'' else if d = 13 then CHR ''d'' else if d = 14 then CHR ''e''
      else CHR ''f'')"

definition fmt_02x :: "int \<Rightarrow> string" where
  "fmt_02x v = [hex_digit (v div 16 mod 16), hex_digit (v mod 16)]"

definition color_map_simple :: "int \<rightharpoonup> string" where
  "color_map_simple =
     [1996532479 \<mapsto> ''#FFFF00'',
      - 1996554240 \<mapsto> ''#00FF00'',
      2013265664 \<mapsto> ''#0000FF'',
      - 256 \<mapsto> ''#FF0000'',
      16711680 \<mapsto> ''#FF00FF'']"

definition map_color_simple :: "int \<Rightarrow> string" where
  "map_color_simple color_value =
     (case color_map_simple color_value of
        Some c \<Rightarrow> c
      | None \<Rightarrow>
          (let r = \<bar>color_value mod 256\<bar>;
               g = \<bar>drop_bit 8 color_value mod 256\<bar>;
               b = \<bar>drop_bit 16 color_value mod 256\<bar>
           in ''#'' @ fmt_02x r @ fmt_02x g @ fmt_02x b))"

text \<open>The formula the specification gives for the fallback, kept for comparison.\<close>

definition spec_fallback :: "int \<Rightarrow> color" where
  "spec_fallback code =
     (real_of_int (\<bar>code\<bar> mod 256) / 255,
      real_of_int (\<bar>drop_bit 8 code\<bar> mod 256) / 255,
      real_of_int (\<bar>drop_bit 16 code\<bar> mod 256) / 255)"

section \<open>The library boundary\<close>

text \<open>
  The program drives PyMuPDF and fuzzywuzzy. Their results are the inputs of the model.
  A \<open>quad\<close> is \<^verbatim>\<open>fitz.Quad(ul, ur, ll, lr)\<close>; a \<open>word\<close> is the tuple
  \<^verbatim>\<open>(x0, y0, x1, y1, text, ...)\<close> of \<^verbatim>\<open>page.get_text("words")\<close>, cut after the
  text, which is all the program reads. A \<open>page\<close> holds what the program observes of a
  \<^verbatim>\<open>fitz.Page\<close>: its number and the result of each call it makes, \<open>None\<close> when
  the call raises. \<open>highlight_annot_ok\<close> tells whether the four annotation calls of
  \<^verbatim>\<open>add_highlight_annotation\<close> (add_highlight_annot, set_colors, set_info, update)
  all return. Calls are deterministic: the same call on the same page gives the same
  result. Coordinates are floats that the program only copies; they are \<open>real\<close> here.
  Two quads are equal when their four corners are, which is how \<^verbatim>\<open>in\<close> compares
  them in the list comprehension of line 307.
\<close>

type_synonym point = "real \<times> real"

datatype quad = Quad (ul: point) (ur: point) (ll: point) (lr: point)

type_synonym word = "real \<times> real \<times> real \<times> real \<times> string"

record page =
  number :: nat
  get_text :: "string option"
  get_text_words :: "word list option"
  search_for :: "string \<Rightarrow> quad list option"
  highlight_annot_ok :: "quad list \<Rightarrow> color \<Rightarrow> string \<Rightarrow> bool"

text \<open>
  \<^verbatim>\<open>fuzz.partial_ratio\<close> and \<^verbatim>\<open>str.lower\<close> (Unicode-aware) are parameters too.
\<close>

record lib =
  partial_ratio :: "string \<Rightarrow> string \<Rightarrow> nat"
  lower :: "string \<Rightarrow> string"

section \<open>The highlighter's state\<close>

text \<open>
  \<^verbatim>\<open>self.text_cache\<close> is the dictionary from page number to page text. The list
  \<open>extractions\<close> is not in the program: it records, in order, every extraction call
  that returned (\<^verbatim>\<open>page.get_text()\<close> and \<^verbatim>\<open>page.get_text("words")\<close>), so that
  "how often" can be stated.
\<close>

datatype event = ExtractText nat | ExtractWords nat

record state =
  text_cache :: "nat \<rightharpoonup> string"
  extractions :: "event list"

definition init_state :: state where
  "init_state = \<lparr>text_cache = Map.empty, extractions = []\<rparr>"

definition fuzzy_threshold :: nat where
  "fuzzy_threshold = 80"

definition max_fuzzy_results :: nat where
  "max_fuzzy_results = 5"

text \<open>
  The state is consistent when each page number whose text is in the cache has one text
  extraction on record and every other page number has none.
\<close>

definition cache_consistent :: "state \<Rightarrow> bool" where
  "cache_consistent s =
     (\<forall>n. count_list (extractions s) (ExtractText n) = (if text_cache s n = None then 0 else 1))"

section \<open>Text location\<close>

text \<open>\<^verbatim>\<open>extract_page_text\<close>: \<open>None\<close> when \<^verbatim>\<open>page.get_text()\<close> raises.\<close>

definition extract_page_text :: "state \<Rightarrow> page \<Rightarrow> (string \<times> state) option" where
  "extract_page_text s page =
     (let page_num = number page in
      case text_cache s page_num of
        Some t \<Rightarrow> Some (t, s)
      | None \<Rightarrow>
          (case get_text page of
             None \<Rightarrow> None
           | Some t \<Rightarrow>
               Some (t, s\<lparr>text_cache := (text_cache s)(page_num \<mapsto> t),
                          extractions := extractions s @ [ExtractText page_num]\<rparr>)))"

text \<open>\<^verbatim>\<open>find_text_exact\<close>: an exception of the search is caught and gives no quads.\<close>

definition find_text_exact :: "page \<Rightarrow> string \<Rightarrow> quad list" where
  "find_text_exact page text =
     (case search_for page text of Some quads \<Rightarrow> quads | None \<Rightarrow> [])"

definition word_text :: "word \<Rightarrow> string" where
  "word_text w = (case w of (x0, y0, x1, y1, t) \<Rightarrow> t)"

definition word_quad :: "word \<Rightarrow> quad" where
  "word_quad w =
     (case w of (x0, y0, x1, y1, t) \<Rightarrow> Quad (x0, y0) (x1, y0) (x1, y1) (x0, y1))"

text \<open>The loop over the words of a page in \<^verbatim>\<open>find_text_fuzzy\<close>.\<close>

fun similar_words :: "lib \<Rightarrow> string \<Rightarrow> word list \<Rightarrow> (word \<times> nat) list" where
  "similar_words L text [] = []"
| "similar_words L text (w # ws) =
     (if length (word_text w) > 3 then
        (let score = partial_ratio L (lower L text) (lower L (word_text w)) in
         if score \<ge> fuzzy_threshold then (w, score) # similar_words L text ws
         else similar_words L text ws)
      else similar_words L text ws)"

text \<open>
  \<^verbatim>\<open>find_text_fuzzy\<close>. Python's \<^verbatim>\<open>sort(key=..., reverse=True)\<close> is stable, as
  \<open>sort_key\<close> on the negated score is. Any exception in the body is caught and gives
  the empty list; the cache keeps what was stored before the exception.
\<close>

definition find_text_fuzzy :: "lib \<Rightarrow> state \<Rightarrow> page \<Rightarrow> string \<Rightarrow> (quad \<times> nat) list \<times> state" where
  "find_text_fuzzy L s page text =
     (case extract_page_text s page of
        None \<Rightarrow> ([], s)
      | Some (page_text, s1) \<Rightarrow>
          (case get_text_words page of
             None \<Rightarrow> ([], s1)
           | Some words \<Rightarrow>
               (let s2 = s1\<lparr>extractions := extractions s1 @ [ExtractWords (number page)]\<rparr>;
                    sorted_words = sort_key (\<lambda>x. - int (snd x)) (similar_words L text words);
                    best_matches = take max_fuzzy_results sorted_words
                in (map (\<lambda>(w, score). (word_quad w, score)) best_matches, s2))))"

text \<open>
  The two search loops of \<^verbatim>\<open>process_highlights\<close> (lines 285 to 302). The exact loop
  leaves \<^verbatim>\<open>found_quads\<close>; the fuzzy loop leaves the best quad of the first page with a
  fuzzy result.
\<close>

fun exact_pass :: "page list \<Rightarrow> string \<Rightarrow> quad list" where
  "exact_pass [] text = []"
| "exact_pass (page # pages) text =
     (let quads = find_text_exact page text in
      if quads \<noteq> [] then quads else exact_pass pages text)"

fun fuzzy_pass :: "lib \<Rightarrow> state \<Rightarrow> page list \<Rightarrow> string \<Rightarrow> (quad \<times> nat) option \<times> state" where
  "fuzzy_pass L s [] text = (None, s)"
| "fuzzy_pass L s (page # pages) text =
     (case find_text_fuzzy L s page text of
        ([], s') \<Rightarrow> fuzzy_pass L s' pages text
      | (best # others, s') \<Rightarrow> (Some best, s'))"

text \<open>
  \<open>locate\<close> is the search part of one iteration: it returns the variables
  \<^verbatim>\<open>found_quads\<close> and \<^verbatim>\<open>fuzzy_used\<close> and the state.
\<close>

definition locate :: "lib \<Rightarrow> state \<Rightarrow> page list \<Rightarrow> string \<Rightarrow> bool \<Rightarrow> (quad list \<times> bool) \<times> state" where
  "locate L s doc text use_fuzzy =
     (let found_quads = exact_pass doc text in
      if found_quads = [] \<and> use_fuzzy then
        (case fuzzy_pass L s doc text of
           (Some (best_quad, score), s') \<Rightarrow> (([best_quad], True), s')
         | (None, s') \<Rightarrow> (([], False), s'))
      else ((found_quads, False), s))"

text \<open>The specification's names for the three outcomes of the search.\<close>

datatype match_kind = Exact | Fuzzy | NotFound

definition match_kind :: "quad list \<times> bool \<Rightarrow> match_kind" where
  "match_kind r =
     (case r of (found_quads, fuzzy_used) \<Rightarrow>
        if fuzzy_used then Fuzzy else if found_quads \<noteq> [] then Exact else NotFound)"

section \<open>Annotation and counting\<close>

definition add_highlight_annotation :: "page \<Rightarrow> quad list \<Rightarrow> color \<Rightarrow> string \<Rightarrow> bool" where
  "add_highlight_annotation page quads color text =
     (if quads = [] then False
      else highlight_annot_ok page quads color (''Highlight: '' @ take 100 text @ ''...''))"

text \<open>
  The loop of lines 306 to 321 over the pages. The search of line 307 is not inside a
  \<^verbatim>\<open>try\<close>: when it raises, the exception leaves \<^verbatim>\<open>process_highlights\<close>. The list
  comprehension calls the search once for each element of \<^verbatim>\<open>found_quads\<close>, so not at
  all when that list is empty.
\<close>

datatype error = SearchRaised | ExtractRaised

datatype placement = Placed page "quad list" | PlaceFailed | NoPageMatches

fun place_on_pages :: "page list \<Rightarrow> quad list \<Rightarrow> color \<Rightarrow> string \<Rightarrow> error + placement" where
  "place_on_pages [] found_quads color text = Inr NoPageMatches"
| "place_on_pages (page # pages) found_quads color text =
     (if found_quads = [] then place_on_pages pages found_quads color text
      else
        (case search_for page text of
           None \<Rightarrow> Inl SearchRaised
         | Some hits \<Rightarrow>
             (let page_quads = filter (\<lambda>q. q \<in> set hits) found_quads in
              if page_quads \<noteq> [] then
                (if add_highlight_annotation page page_quads color text
                 then Inr (Placed page page_quads) else Inr PlaceFailed)
              else place_on_pages pages found_quads color text)))"

type_synonym highlight = "int \<times> int \<times> string"

type_synonym annot = "nat \<times> quad list \<times> color"

record run_state =
  found_highlights :: nat
  not_found_highlights :: nat
  fuzzy_highlights :: nat
  annots :: "annot list"
  cache :: state

definition init_run :: "state \<Rightarrow> run_state" where
  "init_run s =
     \<lparr>found_highlights = 0, not_found_highlights = 0, fuzzy_highlights = 0,
      annots = [], cache = s\<rparr>"

text \<open>One iteration of the loop over the highlights (lines 272 to 324).\<close>

definition process_one :: "lib \<Rightarrow> page list \<Rightarrow> bool \<Rightarrow> run_state \<Rightarrow> highlight \<Rightarrow> error + run_state" where
  "process_one L doc use_fuzzy r h =
     (case h of (color_value, len, original_text) \<Rightarrow>
        (let color = map_color color_value in
         case locate L (cache r) doc original_text use_fuzzy of
           ((found_quads, fuzzy_used), s') \<Rightarrow>
             (let r1 = r\<lparr>cache := s'\<rparr> in
              if found_quads \<noteq> [] then
                (case place_on_pages doc found_quads color original_text of
                   Inl e \<Rightarrow> Inl e
                 | Inr (Placed page page_quads) \<Rightarrow>
                     Inr (r1\<lparr>found_highlights := found_highlights r1 + 1,
                             fuzzy_highlights :=
                               (if fuzzy_used then fuzzy_highlights r1 + 1
                                else fuzzy_highlights r1),
                             annots := annots r1 @ [(number page, page_quads, color)]\<rparr>)
                 | Inr PlaceFailed \<Rightarrow>
                     Inr (r1\<lparr>not_found_highlights := not_found_highlights r1 + 1\<rparr>)
                 | Inr NoPageMatches \<Rightarrow>
                     Inr (r1\<lparr>not_found_highlights := not_found_highlights r1 + 1\<rparr>))
              else Inr (r1\<lparr>not_found_highlights := not_found_highlights r1 + 1\<rparr>))))"

fun process_loop :: "lib \<Rightarrow> page list \<Rightarrow> bool \<Rightarrow> run_state \<Rightarrow> highlight list \<Rightarrow> error + run_state" where
  "process_loop L doc use_fuzzy r [] = Inr r"
| "process_loop L doc use_fuzzy r (h # hs) =
     (case process_one L doc use_fuzzy r h of
        Inl e \<Rightarrow> Inl e
      | Inr r' \<Rightarrow> process_loop L doc use_fuzzy r' hs)"

section \<open>Output path and the whole run\<close>

text \<open>
  A \<^verbatim>\<open>pathlib.Path\<close> is its parent directory and its final component. \<open>stem\<close> and
  \<open>suffix\<close> are pathlib's: the name is cut at its last dot, unless that dot is the
  first or the last character. \<^verbatim>\<open>str.rfind\<close> returns \<open>-1\<close> where \<open>rfind\<close>
  returns \<open>None\<close>. Files are told apart by their path.
\<close>

datatype path = Path (parent: "string list") (name: string)

fun rfind :: "char \<Rightarrow> string \<Rightarrow> nat option" where
  "rfind c [] = None"
| "rfind c (x # xs) =
     (case rfind c xs of
        Some i \<Rightarrow> Some (Suc i)
      | None \<Rightarrow> if x = c then Some 0 else None)"

definition suffix :: "path \<Rightarrow> string" where
  "suffix p =
     (case rfind (CHR ''.'') (name p) of
        Some i \<Rightarrow> if 0 < i \<and> int i < int (length (name p)) - 1 then drop i (name p) else []
      | None \<Rightarrow> [])"

definition stem :: "path \<Rightarrow> string" where
  "stem p =
     (case rfind (CHR ''.'') (name p) of
        Some i \<Rightarrow> if 0 < i \<and> int i < int (length (name p)) - 1 then take i (name p) else name p
      | None \<Rightarrow> name p)"

definition default_output_path :: "path \<Rightarrow> path" where
  "default_output_path pdf = Path (parent pdf) (stem pdf @ ''_highlighted'' @ suffix pdf)"

text \<open>
  The surroundings of one run of \<^verbatim>\<open>process_highlights\<close>: the path of the PDF, the
  rows \<^verbatim>\<open>get_highlights_from_db\<close> returns, the pages \<^verbatim>\<open>fitz.open\<close> gives (\<open>None\<close>
  when it raises), the files, and what \<^verbatim>\<open>doc.save\<close> does with a path and the
  annotations added: whether it returns, and the content it leaves at that path, if it
  wrote any. The messages the program prints are left out, but for the final report; so
  is the optional progress callback, which is absent in a command-line run.
\<close>

record 'c env =
  pdf_path :: path
  db_highlights :: "highlight list"
  fitz_open :: "page list option"
  doc_save :: "path \<Rightarrow> annot list \<Rightarrow> bool \<times> 'c option"
  files :: "path \<rightharpoonup> 'c"

record report =
  rep_total :: nat
  rep_found :: nat
  rep_fuzzy :: nat
  rep_not_found :: nat

definition report_of :: "highlight list \<Rightarrow> run_state \<Rightarrow> report" where
  "report_of highlights r =
     \<lparr>rep_total = length highlights, rep_found = found_highlights r,
      rep_fuzzy = fuzzy_highlights r, rep_not_found = not_found_highlights r\<rparr>"

text \<open>
  The result of a run: the returned path (\<open>Inr None\<close> for the empty string, \<open>Inl\<close>
  for an exception that leaves the function), the files afterwards, and the final report
  if it was printed.
\<close>

record 'c outcome =
  returned :: "error + path option"
  files_after :: "path \<rightharpoonup> 'c"
  final_report :: "report option"

definition write_file :: "(path \<rightharpoonup> 'c) \<Rightarrow> path \<Rightarrow> 'c option \<Rightarrow> (path \<rightharpoonup> 'c)" where
  "write_file fs p written = (case written of None \<Rightarrow> fs | Some c \<Rightarrow> fs(p \<mapsto> c))"

definition process_highlights :: "lib \<Rightarrow> 'c env \<Rightarrow> path option \<Rightarrow> bool \<Rightarrow> 'c outcome" where
  "process_highlights L e output_path use_fuzzy =
     (let highlights = db_highlights e in
      if highlights = [] then
        \<lparr>returned = Inr None, files_after = files e, final_report = None\<rparr>
      else
        (case fitz_open e of
           None \<Rightarrow> \<lparr>returned = Inr None, files_after = files e, final_report = None\<rparr>
         | Some doc \<Rightarrow>
             (case process_loop L doc use_fuzzy (init_run init_state) highlights of
                Inl err \<Rightarrow> \<lparr>returned = Inl err, files_after = files e, final_report = None\<rparr>
              | Inr r \<Rightarrow>
                  (let out = (case output_path of
                                None \<Rightarrow> default_output_path (pdf_path e)
                              | Some p \<Rightarrow> p);
                       (saved, written) = doc_save e out (annots r);
                       fs = write_file (files e) out written
                   in if saved then
                        \<lparr>returned = Inr (Some out), files_after = fs,
                         final_report = Some (report_of highlights r)\<rparr>
                      else \<lparr>returned = Inr None, files_after = fs, final_report = None\<rparr>))))"

section \<open>The simplified program\<close>

text \<open>
  \<^verbatim>\<open>MoonHighlighterSimple\<close> (moon_highlighter_simple.py) reads the pages with PyPDF2,
  looks each text up as a substring of the page text and writes a copy of the PDF. A page
  is the result of \<^verbatim>\<open>page.extract_text()\<close>, \<open>None\<close> when it raises. Its report
  has no fuzzy counter; the field is 0 there.
\<close>

fun find_str :: "string \<Rightarrow> string \<Rightarrow> nat option" where
  "find_str text [] = (if text = [] then Some 0 else None)"
| "find_str text (c # cs) =
     (if take (length text) (c # cs) = text then Some 0
      else map_option Suc (find_str text cs))"

fun find_text_in_pdf :: "nat \<Rightarrow> string option list \<Rightarrow> string \<Rightarrow> error + (nat \<times> int \<times> int) list" where
  "find_text_in_pdf page_num [] text = Inr []"
| "find_text_in_pdf page_num (page # pages) text =
     (case page of
        None \<Rightarrow> Inl ExtractRaised
      | Some page_text \<Rightarrow>
          (case find_text_in_pdf (Suc page_num) pages text of
             Inl err \<Rightarrow> Inl err
           | Inr locations \<Rightarrow>
               (case find_str text page_text of
                  None \<Rightarrow> Inr locations
                | Some start_pos \<Rightarrow>
                    (let lines_before = count_list (take start_pos page_text) (CHR 0x0A);
                         x = 50;
                         y = 800 - int lines_before * 12
                     in Inr ((page_num, x, y) # locations)))))"

fun sample_loop :: "string option list \<Rightarrow> nat \<times> nat \<Rightarrow> highlight list \<Rightarrow> error + nat \<times> nat" where
  "sample_loop pages (found_n, not_found_n) [] = Inr (found_n, not_found_n)"
| "sample_loop pages (found_n, not_found_n) ((color_value, len, original_text) # hs) =
     (case find_text_in_pdf 0 pages original_text of
        Inl err \<Rightarrow> Inl err
      | Inr locations \<Rightarrow>
          (if locations \<noteq> [] then sample_loop pages (found_n + 1, not_found_n) hs
           else sample_loop pages (found_n, not_found_n + 1) hs))"

definition default_output_path_simple :: "path \<Rightarrow> path" where
  "default_output_path_simple pdf =
     Path (parent pdf) (stem pdf @ ''_test_highlighted'' @ suffix pdf)"

record 'c env_simple =
  simple_pdf_path :: path
  sample_highlights :: "highlight list"
  reader_pages :: "string option list option"
  writer_write :: "path \<Rightarrow> bool \<times> 'c option"
  simple_files :: "path \<rightharpoonup> 'c"

definition process_sample_highlights :: "'c env_simple \<Rightarrow> path option \<Rightarrow> 'c outcome" where
  "process_sample_highlights e output_path =
     (let highlights = sample_highlights e in
      if highlights = [] then
        \<lparr>returned = Inr None, files_after = simple_files e, final_report = None\<rparr>
      else
        (case reader_pages e of
           None \<Rightarrow> \<lparr>returned = Inr None, files_after = simple_files e, final_report = None\<rparr>
         | Some pages \<Rightarrow>
             (case sample_loop pages (0, 0) highlights of
                Inl err \<Rightarrow>
                  \<lparr>returned = Inl err, files_after = simple_files e, final_report = None\<rparr>
              | Inr (found_n, not_found_n) \<Rightarrow>
                  (let out = (case output_path of
                                None \<Rightarrow> default_output_path_simple (simple_pdf_path e)
                              | Some p \<Rightarrow> p);
                       (saved, written) = writer_write e out;
                       fs = write_file (simple_files e) out written
                   in if saved then
                        \<lparr>returned = Inr (Some out), files_after = fs,
                         final_report =
                           Some \<lparr>rep_total = length highlights, rep_found = found_n,
                                 rep_fuzzy = 0, rep_not_found = not_found_n\<rparr>\<rparr>
                      else \<lparr>returned = Inr None, files_after = fs, final_report = None\<rparr>))))"

section \<open>Outcomes of a record\<close>

text \<open>
  Two properties of a record in a document, used to state what the counters hold: the
  exact pass finds it on no page; it is found, and the annotation calls on the page
  where it is placed fail.
\<close>

definition highlight_text :: "highlight \<Rightarrow> string" where
  "highlight_text h = (case h of (color_value, len, original_text) \<Rightarrow> original_text)"

definition no_exact_occurrence :: "page list \<Rightarrow> highlight \<Rightarrow> bool" where
  "no_exact_occurrence doc h = (exact_pass doc (highlight_text h) = [])"

definition annotation_fails :: "page list \<Rightarrow> highlight \<Rightarrow> bool" where
  "annotation_fails doc h =
     (case h of (color_value, len, original_text) \<Rightarrow>
        exact_pass doc original_text \<noteq> [] \<and>
        place_on_pages doc (exact_pass doc original_text) (map_color color_value) original_text =
          Inr PlaceFailed)"

section \<open>A small document\<close>

text \<open>
  One page with the three words "a quick test", used to run the definitions. The search
  finds the words "quick" and "test"; the score is 100 when one string occurs in the
  other, as the partial ratio is, and 0 otherwise.
\<close>

definition ex_lib :: lib where
  "ex_lib =
     \<lparr>partial_ratio = (\<lambda>a b. if find_str b a = None \<and> find_str a b = None then 0 else 100),
      lower = (\<lambda>t. t)\<rparr>"

definition ex_search :: "string \<Rightarrow> quad list option" where
  "ex_search t =
     (if t = ''quick'' then Some [Quad (82, 100) (110, 100) (82, 112) (110, 112)]
      else if t = ''test'' then Some [Quad (114, 100) (134, 100) (114, 112) (134, 112)]
      else Some [])"

definition ex_page :: page where
  "ex_page =
     \<lparr>number = 0,
      get_text = Some ''a quick test'',
      get_text_words =
        Some [(72, 100, 78, 112, ''a''), (82, 100, 110, 112, ''quick''),
              (114, 100, 134, 112, ''test'')],
      search_for = ex_search,
      highlight_annot_ok = (\<lambda>quads color content. True)\<rparr>"

text \<open>The same page in a document where the annotation calls raise.\<close>

definition ex_page_locked :: page where
  "ex_page_locked = ex_page\<lparr>highlight_annot_ok := (\<lambda>quads color content. False)\<rparr>"

text \<open>The same page where annotating the word "quick" fails and the rest succeeds.\<close>

definition ex_page_mixed :: page where
  "ex_page_mixed =
     ex_page\<lparr>highlight_annot_ok :=
       (\<lambda>quads color content. quads \<noteq> [Quad (82, 100) (110, 100) (82, 112) (110, 112)])\<rparr>"

text \<open>A page whose search raises, as a damaged page does.\<close>

definition ex_page_damaged :: page where
  "ex_page_damaged =
     \<lparr>number = 0, get_text = None, get_text_words = None,
      search_for = (\<lambda>t. None), highlight_annot_ok = (\<lambda>quads color content. True)\<rparr>"

definition ex_pdf :: path where
  "ex_pdf = Path [''books''] ''book.pdf''"

text \<open>The saved file is represented by the annotations it holds.\<close>

definition ex_env :: "highlight list \<Rightarrow> (annot list) env" where
  "ex_env rows =
     \<lparr>pdf_path = ex_pdf,
      db_highlights = rows,
      fitz_open = Some [ex_page],
      doc_save = (\<lambda>p a. (True, Some a)),
      files = [ex_pdf \<mapsto> []]\<rparr>"

definition ex_env_simple :: "highlight list \<Rightarrow> (annot list) env_simple" where
  "ex_env_simple rows =
     \<lparr>simple_pdf_path = ex_pdf,
      sample_highlights = rows,
      reader_pages = Some [Some ''a quick test''],
      writer_write = (\<lambda>p. (True, Some [])),
      simple_files = [ex_pdf \<mapsto> []]\<rparr>"

section \<open>Properties of the colour mapping\<close>

lemma color_map_dom:
  "color_map v = None \<longleftrightarrow>
     v \<noteq> 1996532479 \<and> v \<noteq> - 1996554240 \<and> v \<noteq> 2013265664 \<and> v \<noteq> - 256 \<and> v \<noteq> 16711680"
  by (simp add: color_map_def)

lemma color_map_simple_dom:
  "color_map_simple v = None \<longleftrightarrow> color_map v = None"
  by (simp add: color_map_def color_map_simple_def)

lemma shift_bytes_period:
  "(v + 2 ^ 32) mod 256 = (v::int) mod 256"
  "drop_bit 8 (v + 2 ^ 32) mod 256 = drop_bit 8 (v::int) mod 256"
  "drop_bit 16 (v + 2 ^ 32) mod 256 = drop_bit 16 (v::int) mod 256"
proof -
  have a: "(v + 2 ^ 32) mod 256 = (v + 256 * 2 ^ 24) mod 256" by simp
  show "(v + 2 ^ 32) mod 256 = v mod 256" unfolding a by (rule mod_mult_self2)
  have "(v + 2 ^ 32) div 2 ^ 8 = (v + 2 ^ 8 * 2 ^ 24) div 2 ^ 8" by simp
  also have "\<dots> = v div 2 ^ 8 + 2 ^ 24" by (subst div_mult_self2) simp_all
  finally have b: "drop_bit 8 (v + 2 ^ 32) = drop_bit 8 v + 256 * 2 ^ 16"
    by (simp add: drop_bit_eq_div)
  show "drop_bit 8 (v + 2 ^ 32) mod 256 = drop_bit 8 v mod 256"
    unfolding b by (rule mod_mult_self2)
  have "(v + 2 ^ 32) div 2 ^ 16 = (v + 2 ^ 16 * 2 ^ 16) div 2 ^ 16" by simp
  also have "\<dots> = v div 2 ^ 16 + 2 ^ 16" by (subst div_mult_self2) simp_all
  finally have c: "drop_bit 16 (v + 2 ^ 32) = drop_bit 16 v + 256 * 2 ^ 8"
    by (simp add: drop_bit_eq_div)
  show "drop_bit 16 (v + 2 ^ 32) mod 256 = drop_bit 16 v mod 256"
    unfolding c by (rule mod_mult_self2)
qed

text \<open>
  C7: each of the five known colour values is looked up by its literal integer key, the
  negative ones included, and yields the documented colour: the RGB triple in the main
  program and the hexadecimal string in the simplified one.
\<close>

theorem map_color_known_table:
  "map_color 1996532479 = (1, 1, 0) \<and>
   map_color (- 1996554240) = (0, 1, 0) \<and>
   map_color 2013265664 = (0, 0, 1) \<and>
   map_color (- 256) = (1, 0, 0) \<and>
   map_color 16711680 = (1, 0, 1) \<and>
   map_color_simple 1996532479 = ''#FFFF00'' \<and>
   map_color_simple (- 1996554240) = ''#00FF00'' \<and>
   map_color_simple 2013265664 = ''#0000FF'' \<and>
   map_color_simple (- 256) = ''#FF0000'' \<and>
   map_color_simple 16711680 = ''#FF00FF''"
  by (simp add: map_color_def color_map_def map_color_simple_def color_map_simple_def)

text \<open>
  C2, the claim as stated, fails at \<open>-1\<close>, which is not in the table: the program
  takes the absolute value after the modulo, where it changes nothing, and gives white;
  the formula of the claim takes it before and gives \<open>1/255\<close> in each channel.
\<close>

theorem map_color_fallback_counterexample:
  "color_map (- 1) = None \<and> map_color (- 1) = (1, 1, 1) \<and>
   spec_fallback (- 1) = (1 / 255, 1 / 255, 1 / 255) \<and> map_color (- 1) \<noteq> spec_fallback (- 1)"
  by (simp add: color_map_def map_color_def spec_fallback_def)

text \<open>
  C2, amended: for a colour value that is not in the table, the channels are the three
  low bytes of the value, \<open>code mod 256\<close>, \<open>(code >> 8) mod 256\<close> and
  \<open>(code >> 16) mod 256\<close> with the floor modulo and the floor shift, each divided by
  255 (printed as two hexadecimal digits in the simplified program). This is the formula
  of the claim when the value is not negative, and a negative 32-bit value and the
  non-negative value with the same 32 bits get the same colour.
\<close>

theorem map_color_fallback:
  "color_map v = None \<Longrightarrow>
     map_color v =
       (real_of_int (v mod 256) / 255, real_of_int (drop_bit 8 v mod 256) / 255,
        real_of_int (drop_bit 16 v mod 256) / 255) \<and>
     map_color_simple v =
       ''#'' @ fmt_02x (v mod 256) @ fmt_02x (drop_bit 8 v mod 256) @
       fmt_02x (drop_bit 16 v mod 256) \<and>
     (0 \<le> v \<longrightarrow> map_color v = spec_fallback v) \<and>
     (- (2 ^ 31) \<le> v \<and> v < 0 \<longrightarrow> map_color (v + 2 ^ 32) = map_color v)"
proof -
  assume n: "color_map v = None"
  have ns: "color_map_simple v = None" using n by (simp add: color_map_simple_dom)
  have a: "\<bar>v mod 256\<bar> = v mod 256" "\<bar>drop_bit 8 v mod 256\<bar> = drop_bit 8 v mod 256"
     "\<bar>drop_bit 16 v mod 256\<bar> = drop_bit 16 v mod 256" by simp_all
  have 1: "map_color v =
       (real_of_int (v mod 256) / 255, real_of_int (drop_bit 8 v mod 256) / 255,
        real_of_int (drop_bit 16 v mod 256) / 255)"
    using n by (simp add: map_color_def a)
  have 2: "map_color_simple v =
       ''#'' @ fmt_02x (v mod 256) @ fmt_02x (drop_bit 8 v mod 256) @
       fmt_02x (drop_bit 16 v mod 256)"
    using ns by (simp add: map_color_simple_def a)
  have 3: "map_color v = spec_fallback v" if "0 \<le> v"
  proof -
    have "0 \<le> drop_bit 8 v" "0 \<le> drop_bit 16 v" using that by simp_all
    then show ?thesis using that unfolding 1 spec_fallback_def by simp
  qed
  have 4: "map_color (v + 2 ^ 32) = map_color v" if "- (2 ^ 31) \<le> v \<and> v < 0"
  proof -
    have "color_map (v + 2 ^ 32) = None" using that by (simp add: color_map_dom)
    then show ?thesis using n shift_bytes_period [of v] by (simp add: map_color_def)
  qed
  show ?thesis using 1 2 3 4 by blast
qed

theorem map_color_fallback_witness:
  "color_map (- 1) = None \<and> map_color (- 1) = (1, 1, 1) \<and>
   map_color_simple (- 1) = ''#ffffff'' \<and> map_color (- 1 + 2 ^ 32) = map_color (- 1)"
  using map_color_fallback [of "- 1"]
  by (simp add: color_map_def fmt_02x_def hex_digit_def)

section \<open>Properties of the search\<close>

lemma exact_pass_first:
  "(\<forall>q\<in>set ps. find_text_exact q text = []) \<Longrightarrow> find_text_exact p text \<noteq> [] \<Longrightarrow>
   exact_pass (ps @ p # rest) text = find_text_exact p text"
  by (induction ps) (simp_all add: Let_def)

lemma exact_pass_empty_iff:
  "exact_pass doc text = [] \<longleftrightarrow> (\<forall>p\<in>set doc. find_text_exact p text = [])"
  by (induction doc) (simp_all add: Let_def)

lemma exact_pass_split:
  "exact_pass doc text \<noteq> [] \<Longrightarrow>
   \<exists>ps p rest. doc = ps @ p # rest \<and> (\<forall>q\<in>set ps. find_text_exact q text = []) \<and>
      find_text_exact p text \<noteq> [] \<and> exact_pass doc text = find_text_exact p text"
proof (induction doc)
  case Nil
  then show ?case by simp
next
  case (Cons a doc)
  show ?case
  proof (cases "find_text_exact a text = []")
    case True
    with Cons.prems have "exact_pass doc text \<noteq> []" by (simp add: Let_def)
    from Cons.IH [OF this] obtain ps p rest where
      h: "doc = ps @ p # rest" "\<forall>q\<in>set ps. find_text_exact q text = []"
         "find_text_exact p text \<noteq> []" "exact_pass doc text = find_text_exact p text"
      by blast
    have "a # doc = (a # ps) @ p # rest" using h(1) by simp
    moreover have "\<forall>q\<in>set (a # ps). find_text_exact q text = []" using h(2) True by simp
    moreover have "exact_pass (a # doc) text = find_text_exact p text"
      using True h(4) by (simp add: Let_def)
    ultimately show ?thesis using h(3) by blast
  next
    case False
    have "a # doc = [] @ a # doc" by simp
    moreover have "exact_pass (a # doc) text = find_text_exact a text"
      using False by (simp add: Let_def)
    ultimately show ?thesis using False by (metis empty_iff list.set(1))
  qed
qed

lemma similar_words_sound:
  "(w, sc) \<in> set (similar_words L text ws) \<Longrightarrow>
   w \<in> set ws \<and> length (word_text w) > 3 \<and>
   sc = partial_ratio L (lower L text) (lower L (word_text w)) \<and> sc \<ge> fuzzy_threshold"
  by (induction ws) (auto simp: Let_def split: if_splits)

lemma similar_words_complete:
  "w \<in> set ws \<Longrightarrow> length (word_text w) > 3 \<Longrightarrow>
   partial_ratio L (lower L text) (lower L (word_text w)) \<ge> fuzzy_threshold \<Longrightarrow>
   (w, partial_ratio L (lower L text) (lower L (word_text w))) \<in> set (similar_words L text ws)"
  by (induction ws) (auto simp: Let_def)

lemma find_text_fuzzy_sound:
  assumes "find_text_fuzzy L s p text = (res, s')" "(q, sc) \<in> set res"
  shows "\<exists>ws w. get_text_words p = Some ws \<and> w \<in> set ws \<and> q = word_quad w \<and>
           length (word_text w) > 3 \<and>
           sc = partial_ratio L (lower L text) (lower L (word_text w)) \<and> sc \<ge> fuzzy_threshold"
proof -
  from assms obtain ws where ws: "get_text_words p = Some ws"
    and res: "res = map (\<lambda>(w, score). (word_quad w, score))
                  (take max_fuzzy_results (sort_key (\<lambda>x. - int (snd x)) (similar_words L text ws)))"
    by (auto simp: find_text_fuzzy_def Let_def split: option.splits prod.splits)
  from assms(2) res obtain w where
    "(w, sc) \<in> set (take max_fuzzy_results (sort_key (\<lambda>x. - int (snd x)) (similar_words L text ws)))"
    "q = word_quad w" by auto
  then have "(w, sc) \<in> set (similar_words L text ws)" "q = word_quad w"
    by (auto dest: in_set_takeD)
  with similar_words_sound [of w sc L "text" ws] ws show ?thesis by blast
qed

lemma fuzzy_pass_sound:
  "fuzzy_pass L s doc text = (Some (q, sc), s') \<Longrightarrow>
   \<exists>p\<in>set doc. \<exists>ws w. get_text_words p = Some ws \<and> w \<in> set ws \<and> q = word_quad w \<and>
           length (word_text w) > 3 \<and>
           sc = partial_ratio L (lower L text) (lower L (word_text w)) \<and> sc \<ge> fuzzy_threshold"
proof (induction doc arbitrary: s)
  case Nil
  then show ?case by simp
next
  case (Cons a doc)
  obtain res s1 where f: "find_text_fuzzy L s a text = (res, s1)" by (cases "find_text_fuzzy L s a text")
  show ?case
  proof (cases res)
    case Nil
    with Cons.prems f have "fuzzy_pass L s1 doc text = (Some (q, sc), s')" by simp
    from Cons.IH [OF this] show ?thesis by auto
  next
    case (Cons b bs)
    with Cons.prems f have "b = (q, sc)" by simp
    then have "(q, sc) \<in> set res" using Cons by simp
    from find_text_fuzzy_sound [OF f this] show ?thesis by auto
  qed
qed

lemma locate_no_fuzzy: "locate L s doc text False = ((exact_pass doc text, False), s)"
  by (simp add: locate_def)

lemma locate_exact: "exact_pass doc text \<noteq> [] \<Longrightarrow> locate L s doc text uf = ((exact_pass doc text, False), s)"
  by (simp add: locate_def)

lemma locate_fuzzy_used:
  "locate L s doc text uf = ((fq, True), s') \<Longrightarrow>
     uf \<and> exact_pass doc text = [] \<and> (\<exists>q sc. fq = [q] \<and> fuzzy_pass L s doc text = (Some (q, sc), s'))"
  by (auto simp: locate_def Let_def split: if_splits prod.splits option.splits)

lemma match_kind_simps:
  "match_kind (fq, True) = Fuzzy"
  "match_kind (fq, False) = (if fq \<noteq> [] then Exact else NotFound)"
  by (simp_all add: match_kind_def)

lemma process_one_cases:
  assumes "process_one L doc uf r (c, n, t) = Inr r'"
  obtains (found) p pq d where
      "r' = r\<lparr>cache := snd (locate L (cache r) doc t uf),
               found_highlights := found_highlights r + 1,
               fuzzy_highlights := fuzzy_highlights r + d,
               annots := annots r @ [(number (p::page), pq, map_color c)]\<rparr>" "d \<le> 1"
    | (not_found)
      "r' = r\<lparr>cache := snd (locate L (cache r) doc t uf),
               not_found_highlights := not_found_highlights r + 1\<rparr>"
proof -
  obtain fq fu s' where l: "locate L (cache r) doc t uf = ((fq, fu), s')" by (metis surj_pair)
  show thesis
  proof (cases "fq = []")
    case True
    with assms l have "r' = r\<lparr>cache := s', not_found_highlights := not_found_highlights r + 1\<rparr>"
      by (simp add: process_one_def Let_def)
    then show thesis using l not_found by simp
  next
    case False
    show thesis
    proof (cases "place_on_pages doc fq (map_color c) t")
      case (Inl e)
      with assms l False show thesis by (simp add: process_one_def Let_def)
    next
      case (Inr pl)
      show thesis
      proof (cases pl)
        case (Placed p pq)
        with assms l False Inr
        have "r' = r\<lparr>cache := s', found_highlights := found_highlights r + 1,
               fuzzy_highlights := fuzzy_highlights r + (if fu then 1 else 0),
               annots := annots r @ [(number p, pq, map_color c)]\<rparr>"
          by (cases fu) (auto simp: process_one_def Let_def)
        then show thesis using l found [where d = "if fu then 1 else 0" and p = p and pq = pq] by simp
      next
        case PlaceFailed
        with assms l False Inr
        have "r' = r\<lparr>cache := s', not_found_highlights := not_found_highlights r + 1\<rparr>"
          by (simp add: process_one_def Let_def)
        then show thesis using l not_found by simp
      next
        case NoPageMatches
        with assms l False Inr
        have "r' = r\<lparr>cache := s', not_found_highlights := not_found_highlights r + 1\<rparr>"
          by (simp add: process_one_def Let_def)
        then show thesis using l not_found by simp
      qed
    qed
  qed
qed

text \<open>
  C4: the search of one record scans the pages in order and stops at the first page
  with an exact occurrence: whatever the later pages hold and whether or not fuzzy
  search is enabled, the result is all the occurrences on that page, not marked fuzzy,
  and the state is untouched (no page was read for the fuzzy pass). Conversely an exact
  result is the search result of one page, with no occurrence on the pages before it; a
  fuzzy result arises only with fuzzy search enabled and no exact occurrence on any
  page, and is one quad, made from one word of one page; a record that is not found has
  no quad and no exact occurrence on any page. Processing a record adds at most one
  annotation, on one page.
\<close>

theorem locate_first_exact_page_wins:
  "((\<forall>q\<in>set ps. find_text_exact q t = []) \<and> find_text_exact p t \<noteq> [] \<longrightarrow>
      locate L s (ps @ p # rest) t uf = ((find_text_exact p t, False), s)) \<and>
   (match_kind (fst (locate L s doc t uf)) = Exact \<longrightarrow>
      (\<exists>ps p rest. doc = ps @ p # rest \<and> (\<forall>q\<in>set ps. find_text_exact q t = []) \<and>
         find_text_exact p t \<noteq> [] \<and> fst (fst (locate L s doc t uf)) = find_text_exact p t) \<and>
      snd (locate L s doc t uf) = s) \<and>
   (match_kind (fst (locate L s doc t uf)) = Fuzzy \<longrightarrow>
      uf \<and> (\<forall>p\<in>set doc. find_text_exact p t = []) \<and>
      (\<exists>p\<in>set doc. \<exists>ws w. get_text_words p = Some ws \<and> w \<in> set ws \<and>
         fst (fst (locate L s doc t uf)) = [word_quad w])) \<and>
   (match_kind (fst (locate L s doc t uf)) = NotFound \<longrightarrow>
      fst (fst (locate L s doc t uf)) = [] \<and> (\<forall>p\<in>set doc. find_text_exact p t = [])) \<and>
   (process_one L doc uf r (c, n, t) = Inr r' \<longrightarrow>
      annots r' = annots r \<or> (\<exists>p pq. annots r' = annots r @ [(number (p::page), pq, map_color c)]))"
proof (intro conjI impI)
  assume "(\<forall>q\<in>set ps. find_text_exact q t = []) \<and> find_text_exact p t \<noteq> []"
  then have "exact_pass (ps @ p # rest) t = find_text_exact p t" "find_text_exact p t \<noteq> []"
    by (simp_all add: exact_pass_first)
  then show "locate L s (ps @ p # rest) t uf = ((find_text_exact p t, False), s)"
    using locate_exact [of "ps @ p # rest" t L s uf] by simp
next
  assume k: "match_kind (fst (locate L s doc t uf)) = Exact"
  have ne: "exact_pass doc t \<noteq> []"
  proof
    assume "exact_pass doc t = []"
    then have "match_kind (fst (locate L s doc t uf)) \<noteq> Exact"
      by (auto simp: locate_def match_kind_def split: prod.splits option.splits)
    with k show False by simp
  qed
  then have l: "locate L s doc t uf = ((exact_pass doc t, False), s)" by (rule locate_exact)
  from exact_pass_split [OF ne] l
  show "\<exists>ps p rest. doc = ps @ p # rest \<and> (\<forall>q\<in>set ps. find_text_exact q t = []) \<and>
         find_text_exact p t \<noteq> [] \<and> fst (fst (locate L s doc t uf)) = find_text_exact p t"
    by simp
  from l show "snd (locate L s doc t uf) = s" by simp
next
  assume k: "match_kind (fst (locate L s doc t uf)) = Fuzzy"
  obtain fq fu s' where l: "locate L s doc t uf = ((fq, fu), s')"
    by (metis surj_pair)
  with k have "fu" by (auto simp: match_kind_def split: if_splits)
  with l have l': "locate L s doc t uf = ((fq, True), s')" by simp
  from locate_fuzzy_used [OF l'] obtain q sc where
    h: "uf" "exact_pass doc t = []" "fq = [q]" "fuzzy_pass L s doc t = (Some (q, sc), s')"
    by blast
  show "uf" by (rule h(1))
  show "\<forall>p\<in>set doc. find_text_exact p t = []" using h(2) by (simp add: exact_pass_empty_iff)
  from fuzzy_pass_sound [OF h(4)] obtain p ws w where
    pw: "p \<in> set doc" "get_text_words p = Some ws" "w \<in> set ws" "q = word_quad w"
    by blast
  have "fst (fst (locate L s doc t uf)) = [word_quad w]" using l' h(3) pw(4) by simp
  with pw show "\<exists>p\<in>set doc. \<exists>ws w. get_text_words p = Some ws \<and> w \<in> set ws \<and>
         fst (fst (locate L s doc t uf)) = [word_quad w]"
    by blast
next
  assume k: "match_kind (fst (locate L s doc t uf)) = NotFound"
  obtain fq fu s' where l: "locate L s doc t uf = ((fq, fu), s')"
    by (metis surj_pair)
  with k have fq: "fq = []" "\<not> fu" by (auto simp: match_kind_def split: if_splits)
  show "fst (fst (locate L s doc t uf)) = []" using l fq by simp
  have "exact_pass doc t = []"
  proof (rule ccontr)
    assume ne: "exact_pass doc t \<noteq> []"
    from locate_exact [OF ne, of L s uf] l fq ne show False by simp
  qed
  then show "\<forall>p\<in>set doc. find_text_exact p t = []" by (simp add: exact_pass_empty_iff)
next
  assume "process_one L doc uf r (c, n, t) = Inr r'"
  then show "annots r' = annots r \<or>
      (\<exists>p pq. annots r' = annots r @ [(number (p::page), pq, map_color c)])"
  proof (cases rule: process_one_cases)
    case (found p pq d)
    then have "annots r' = annots r @ [(number p, pq, map_color c)]" by simp
    then show ?thesis by blast
  next
    case not_found
    then show ?thesis by simp
  qed
qed

lemma ex_exact_test: "find_text_exact ex_page ''test'' = [Quad (114, 100) (134, 100) (114, 112) (134, 112)]"
  by (simp add: find_text_exact_def ex_page_def ex_search_def)

lemma ex_exact_fox: "find_text_exact ex_page ''the quick brown fox'' = []"
  by (simp add: find_text_exact_def ex_page_def ex_search_def)

lemma ex_exact_damaged: "find_text_exact ex_page_damaged t = []"
  by (simp add: find_text_exact_def ex_page_damaged_def)

lemma ex_locate_fox:
  "locate ex_lib init_state [ex_page] ''the quick brown fox'' True =
     (([Quad (82, 100) (110, 100) (110, 112) (82, 112)], True),
      \<lparr>text_cache = [0 \<mapsto> ''a quick test''], extractions = [ExtractText 0, ExtractWords 0]\<rparr>)"
  by (simp add: locate_def find_text_exact_def ex_page_def ex_search_def find_text_fuzzy_def
      extract_page_text_def init_state_def ex_lib_def word_text_def fuzzy_threshold_def
      max_fuzzy_results_def word_quad_def Let_def)

theorem locate_first_exact_page_wins_witness:
  "locate ex_lib init_state ([ex_page_damaged] @ ex_page # [ex_page]) ''test'' True =
     (([Quad (114, 100) (134, 100) (114, 112) (134, 112)], False), init_state) \<and>
   match_kind (fst (locate ex_lib init_state [ex_page] ''the quick brown fox'' True)) = Fuzzy \<and>
   find_text_exact ex_page ''the quick brown fox'' = []"
  using locate_first_exact_page_wins [of "[ex_page_damaged]" "''test''" ex_page ex_lib init_state "[ex_page]" True "[]"]
    locate_first_exact_page_wins [of "[]" "''the quick brown fox''" ex_page ex_lib init_state "[]" True "[ex_page]"]
  by (simp add: ex_exact_test ex_exact_damaged ex_locate_fox match_kind_simps)

text \<open>
  C6: with fuzzy search disabled the search returns the result of the exact pass alone,
  never marked fuzzy, and leaves the state untouched; when the exact pass finds nothing
  the record is counted as not found, also when a word of the page scores above the
  threshold (in the example the word "quick" scores 100 and gives a fuzzy result once
  fuzzy search is enabled).
\<close>

theorem locate_without_fuzzy:
  "locate L s doc t False = ((exact_pass doc t, False), s) \<and>
   match_kind (fst (locate L s doc t False)) \<noteq> Fuzzy \<and>
   match_kind (fst (locate L s doc t False)) = (if exact_pass doc t = [] then NotFound else Exact) \<and>
   (exact_pass doc t = [] \<longrightarrow>
      process_one L doc False r (c, n, t) =
        Inr (r\<lparr>not_found_highlights := not_found_highlights r + 1\<rparr>))"
  by (simp add: locate_no_fuzzy match_kind_simps process_one_def)

theorem locate_without_fuzzy_witness:
  "match_kind (fst (locate ex_lib init_state [ex_page] ''the quick brown fox'' True)) = Fuzzy \<and>
   match_kind (fst (locate ex_lib init_state [ex_page] ''the quick brown fox'' False)) = NotFound \<and>
   process_one ex_lib [ex_page] False (init_run init_state) (- 256, 19, ''the quick brown fox'') =
     Inr ((init_run init_state)\<lparr>not_found_highlights := 1\<rparr>)"
  using locate_without_fuzzy [of ex_lib init_state "[ex_page]" "''the quick brown fox''" "init_run init_state" "- 256" 19]
  by (simp add: ex_exact_fox ex_locate_fox match_kind_simps Let_def init_run_def)

section \<open>Properties of the counting\<close>

lemma find_text_exact_empty:
  "find_text_exact p t = [] \<longleftrightarrow> search_for p t = None \<or> search_for p t = Some []"
  by (auto simp: find_text_exact_def split: option.splits)

lemma place_no_exact:
  "(\<forall>p\<in>set doc. find_text_exact p t = []) \<Longrightarrow>
   place_on_pages doc fq c t = Inl SearchRaised \<or> place_on_pages doc fq c t = Inr NoPageMatches"
  by (induction doc) (auto simp: find_text_exact_empty Let_def)

lemma place_first_page:
  "(\<forall>q\<in>set ps. search_for q t = Some []) \<Longrightarrow> search_for p t = Some fq \<Longrightarrow> fq \<noteq> [] \<Longrightarrow>
   place_on_pages (ps @ p # rest) fq c t =
     (if add_highlight_annotation p fq c t then Inr (Placed p fq) else Inr PlaceFailed)"
  by (induction ps) (simp_all add: Let_def)

lemma process_one_counts:
  assumes "process_one L doc uf r h = Inr r'"
  shows "(found_highlights r' = found_highlights r + 1 \<and>
          not_found_highlights r' = not_found_highlights r \<or>
          found_highlights r' = found_highlights r \<and>
          not_found_highlights r' = not_found_highlights r + 1) \<and>
         (fuzzy_highlights r' = fuzzy_highlights r \<or>
          fuzzy_highlights r' = fuzzy_highlights r + 1 \<and>
          found_highlights r' = found_highlights r + 1)"
proof -
  obtain c n t where h: "h = (c, n, t)" by (cases h)
  from assms [unfolded h] show ?thesis
    by (cases rule: process_one_cases) auto
qed

lemma process_loop_counts:
  "process_loop L doc uf r hs = Inr r' \<Longrightarrow>
   found_highlights r' + not_found_highlights r' =
     found_highlights r + not_found_highlights r + length hs \<and>
   fuzzy_highlights r' - fuzzy_highlights r \<le> found_highlights r' - found_highlights r \<and>
   fuzzy_highlights r \<le> fuzzy_highlights r' \<and> found_highlights r \<le> found_highlights r'"
proof (induction hs arbitrary: r)
  case Nil
  then show ?case by simp
next
  case (Cons h hs)
  from Cons.prems obtain r1 where
    s1: "process_one L doc uf r h = Inr r1" and s2: "process_loop L doc uf r1 hs = Inr r'"
    by (auto split: sum.splits)
  from process_one_counts [OF s1] Cons.IH [OF s2] show ?case by auto
qed

lemma fuzzy_located_never_placed:
  assumes "match_kind (fst (locate L (cache r) doc t uf)) = Fuzzy"
  shows "process_one L doc uf r (c, n, t) = Inl SearchRaised \<or>
         process_one L doc uf r (c, n, t) =
           Inr (r\<lparr>cache := snd (locate L (cache r) doc t uf),
                   not_found_highlights := not_found_highlights r + 1\<rparr>)"
proof -
  obtain fq fu s' where l: "locate L (cache r) doc t uf = ((fq, fu), s')" by (metis surj_pair)
  with assms have "fu" by (auto simp: match_kind_def split: if_splits)
  with l have l': "locate L (cache r) doc t uf = ((fq, True), s')" by simp
  from locate_fuzzy_used [OF l'] obtain q where
    h: "exact_pass doc t = []" "fq = [q]" by blast
  from h(1) have "\<forall>p\<in>set doc. find_text_exact p t = []" by (simp add: exact_pass_empty_iff)
  from place_no_exact [OF this, of fq "map_color c"]
  show ?thesis using l' h(2) by (auto simp: process_one_def Let_def)
qed

lemma ex_place_fox:
  "place_on_pages [ex_page] [q] c ''the quick brown fox'' = Inr NoPageMatches"
  by (simp add: ex_page_def ex_search_def Let_def)

lemma ex_process_fox:
  "process_one ex_lib [ex_page] True (init_run init_state) (- 256, 19, ''the quick brown fox'') =
     Inr \<lparr>found_highlights = 0, not_found_highlights = 1, fuzzy_highlights = 0, annots = [],
          cache = \<lparr>text_cache = [0 \<mapsto> ''a quick test''],
                    extractions = [ExtractText 0, ExtractWords 0]\<rparr>\<rparr>"
  by (simp add: process_one_def init_run_def ex_locate_fox ex_place_fox Let_def
      del: place_on_pages.simps)

text \<open>
  C1 asks that a record with no exact occurrence and a word scoring at least 80 be
  annotated with the quad of that word and counted as fuzzy. The program finds the
  fuzzy result but does not annotate or count it: the loop of line 307 keeps only quads
  that the exact search returns, and the exact search has just failed on every page.
  On the example page the text "the quick brown fox" has no occurrence, the word
  "quick" scores 100, the search returns the quad of that word as a fuzzy result, and
  the report counts the record as not found, with no fuzzy highlight; the saved file
  holds no annotation.
\<close>

theorem fuzzy_match_counted_not_found:
  "match_kind (fst (locate ex_lib init_state [ex_page] ''the quick brown fox'' True)) = Fuzzy \<and>
   fst (fst (locate ex_lib init_state [ex_page] ''the quick brown fox'' True)) =
     [word_quad (82, 100, 110, 112, ''quick'')] \<and>
   final_report
     (process_highlights ex_lib (ex_env [(- 256, 19, ''the quick brown fox'')]) None True) =
     Some \<lparr>rep_total = 1, rep_found = 0, rep_fuzzy = 0, rep_not_found = 1\<rparr> \<and>
   files_after
     (process_highlights ex_lib (ex_env [(- 256, 19, ''the quick brown fox'')]) None True)
     (default_output_path ex_pdf) = Some []"
  by (simp add: ex_locate_fox match_kind_simps word_quad_def process_highlights_def ex_env_def
      ex_process_fox report_of_def write_file_def Let_def)

text \<open>
  C10: when a run prints its report, found + not found = total and fuzzy \<le> found.
  Each record that is processed adds one to exactly one of the found and not-found
  counters, and the fuzzy counter grows only together with the found counter.
\<close>

theorem report_counters_invariant:
  "(final_report (process_highlights L e out uf) = Some rp \<longrightarrow>
      rep_found rp + rep_not_found rp = rep_total rp \<and> rep_fuzzy rp \<le> rep_found rp) \<and>
   (process_one L doc uf r h = Inr r' \<longrightarrow>
      (found_highlights r' = found_highlights r + 1 \<and>
       not_found_highlights r' = not_found_highlights r \<or>
       found_highlights r' = found_highlights r \<and>
       not_found_highlights r' = not_found_highlights r + 1) \<and>
      (fuzzy_highlights r' = fuzzy_highlights r \<or>
       fuzzy_highlights r' = fuzzy_highlights r + 1 \<and>
       found_highlights r' = found_highlights r + 1))"
proof (intro conjI impI)
  assume a: "final_report (process_highlights L e out uf) = Some rp"
  then obtain doc r where
    lp: "process_loop L doc uf (init_run init_state) (db_highlights e) = Inr r"
    and rp: "rp = report_of (db_highlights e) r"
    by (auto simp: process_highlights_def Let_def
        split: if_splits option.splits sum.splits prod.splits)
  from process_loop_counts [OF lp]
  show "rep_found rp + rep_not_found rp = rep_total rp" "rep_fuzzy rp \<le> rep_found rp"
    by (simp_all add: rp report_of_def init_run_def)
next
  assume "process_one L doc uf r h = Inr r'"
  from process_one_counts [OF this]
  show "found_highlights r' = found_highlights r + 1 \<and>
       not_found_highlights r' = not_found_highlights r \<or>
       found_highlights r' = found_highlights r \<and>
       not_found_highlights r' = not_found_highlights r + 1"
    "fuzzy_highlights r' = fuzzy_highlights r \<or>
       fuzzy_highlights r' = fuzzy_highlights r + 1 \<and>
       found_highlights r' = found_highlights r + 1"
    by simp_all
qed

lemma ex_place_test:
  "place_on_pages [ex_page] [Quad (114, 100) (134, 100) (114, 112) (134, 112)] c ''test'' =
     Inr (Placed ex_page [Quad (114, 100) (134, 100) (114, 112) (134, 112)])"
  by (simp add: ex_page_def ex_search_def add_highlight_annotation_def Let_def)

lemma ex_locate_test:
  "locate L s [ex_page] ''test'' uf =
     (([Quad (114, 100) (134, 100) (114, 112) (134, 112)], False), s)"
  using locate_exact [of "[ex_page]" "''test''" L s uf] by (simp add: ex_exact_test)

lemma ex_process_test:
  "process_one ex_lib [ex_page] True r (1996532479, 4, ''test'') =
     Inr (r\<lparr>found_highlights := found_highlights r + 1,
             annots := annots r @
               [(0, [Quad (114, 100) (134, 100) (114, 112) (134, 112)], (1, 1, 0))]\<rparr>)"
proof -
  have mc: "map_color 1996532479 = (1, 1, 0)" by (simp add: map_color_def color_map_def)
  have nr: "number ex_page = 0" by (simp add: ex_page_def)
  show ?thesis
    by (simp add: process_one_def ex_locate_test ex_place_test mc nr Let_def
        del: place_on_pages.simps)
qed

lemma ex_report_two:
  "final_report
     (process_highlights ex_lib
        (ex_env [(- 256, 19, ''the quick brown fox''), (1996532479, 4, ''test'')]) None True) =
     Some \<lparr>rep_total = 2, rep_found = 1, rep_fuzzy = 0, rep_not_found = 1\<rparr>"
  by (simp add: process_highlights_def ex_env_def ex_process_fox ex_process_test report_of_def
      Let_def)

theorem report_counters_invariant_witness:
  "final_report
     (process_highlights ex_lib
        (ex_env [(- 256, 19, ''the quick brown fox''), (1996532479, 4, ''test'')]) None True) =
     Some \<lparr>rep_total = 2, rep_found = 1, rep_fuzzy = 0, rep_not_found = 1\<rparr> \<and>
   process_one ex_lib [ex_page] True (init_run init_state) (1996532479, 4, ''test'') =
     Inr ((init_run init_state)\<lparr>found_highlights := 1,
             annots := [(0, [Quad (114, 100) (134, 100) (114, 112) (134, 112)], (1, 1, 0))]\<rparr>)"
  using report_counters_invariant [of ex_lib
      "ex_env [(- 256, 19, ''the quick brown fox''), (1996532479, 4, ''test'')]" None True
      "\<lparr>rep_total = 2, rep_found = 1, rep_fuzzy = 0, rep_not_found = 1\<rparr>"
      "[ex_page]" "init_run init_state" "(1996532479, 4, ''test'')"
      "(init_run init_state)\<lparr>found_highlights := 1,
             annots := [(0, [Quad (114, 100) (134, 100) (114, 112) (134, 112)], (1, 1, 0))]\<rparr>"]
  by (simp add: ex_report_two ex_process_test init_run_def)

lemma find_text_fuzzy_none:
  "(\<forall>ws. get_text_words p = Some ws \<longrightarrow> similar_words L t ws = []) \<Longrightarrow>
   fst (find_text_fuzzy L s p t) = []"
  by (auto simp: find_text_fuzzy_def Let_def split: option.splits)

lemma fuzzy_pass_none:
  "(\<forall>p\<in>set doc. \<forall>ws. get_text_words p = Some ws \<longrightarrow> similar_words L t ws = []) \<Longrightarrow>
   fst (fuzzy_pass L s doc t) = None"
proof (induction doc arbitrary: s)
  case Nil
  then show ?case by simp
next
  case (Cons a doc)
  obtain res s1 where f: "find_text_fuzzy L s a t = (res, s1)"
    by (cases "find_text_fuzzy L s a t")
  from Cons.prems have "fst (find_text_fuzzy L s a t) = []"
    by (intro find_text_fuzzy_none) simp
  with f have "res = []" by simp
  moreover from Cons.prems have "fst (fuzzy_pass L s1 doc t) = None"
    by (intro Cons.IH) simp
  ultimately show ?case using f by simp
qed

lemma locate_not_found:
  assumes "exact_pass doc t = []"
    and "uf \<longrightarrow> (\<forall>p\<in>set doc. \<forall>ws. get_text_words p = Some ws \<longrightarrow> similar_words L t ws = [])"
  shows "fst (locate L s doc t uf) = ([], False)"
proof (cases uf)
  case False
  then show ?thesis using assms(1) by (simp add: locate_def)
next
  case True
  with assms(2) have "fst (fuzzy_pass L s doc t) = None" by (intro fuzzy_pass_none) simp
  then show ?thesis using assms(1) True
    by (auto simp: locate_def Let_def split: prod.splits option.splits)
qed

lemma place_exact:
  assumes ne: "exact_pass doc t \<noteq> []" and ok: "\<forall>p\<in>set doc. search_for p t \<noteq> None"
  shows "place_on_pages doc (exact_pass doc t) c t \<noteq> Inr NoPageMatches \<and>
         (\<forall>e. place_on_pages doc (exact_pass doc t) c t \<noteq> Inl e)"
proof -
  from exact_pass_split [OF ne] obtain ps p rest where
    h: "doc = ps @ p # rest" "\<forall>q\<in>set ps. find_text_exact q t = []"
       "find_text_exact p t \<noteq> []" "exact_pass doc t = find_text_exact p t"
    by blast
  have a: "\<forall>q\<in>set ps. search_for q t = Some []"
    using h(1,2) ok by (auto simp: find_text_exact_empty)
  have b: "search_for p t = Some (find_text_exact p t)"
    using h(1) ok by (auto simp: find_text_exact_def split: option.splits)
  from place_first_page [OF a b h(3), of rest c]
  have "place_on_pages doc (exact_pass doc t) c t =
     (if add_highlight_annotation p (find_text_exact p t) c t
      then Inr (Placed p (find_text_exact p t)) else Inr PlaceFailed)"
    using h(1) h(4) by simp
  then show ?thesis by simp
qed

lemma process_one_exact_only:
  assumes ok: "\<not> no_exact_occurrence doc h \<longrightarrow> (\<forall>p\<in>set doc. search_for p (highlight_text h) \<noteq> None)"
    and nf: "uf \<and> no_exact_occurrence doc h \<longrightarrow>
       (\<forall>p\<in>set doc. \<forall>ws. get_text_words p = Some ws \<longrightarrow>
          similar_words L (highlight_text h) ws = [])"
  shows "\<exists>r'. process_one L doc uf r h = Inr r' \<and>
     not_found_highlights r' = not_found_highlights r +
       (if no_exact_occurrence doc h \<or> annotation_fails doc h then 1 else 0) \<and>
     found_highlights r' = found_highlights r +
       (if no_exact_occurrence doc h \<or> annotation_fails doc h then 0 else 1) \<and>
     fuzzy_highlights r' = fuzzy_highlights r"
proof -
  obtain c n t where h: "h = (c, n, t)" by (cases h)
  have ht: "highlight_text h = t" by (simp add: h highlight_text_def)
  show ?thesis
  proof (cases "exact_pass doc t = []")
    case True
    then have ne: "no_exact_occurrence doc h" by (simp add: no_exact_occurrence_def ht)
    from nf ne ht have "uf \<longrightarrow> (\<forall>p\<in>set doc. \<forall>ws. get_text_words p = Some ws \<longrightarrow>
          similar_words L t ws = [])" by simp
    from locate_not_found [OF True this, of "cache r"]
    obtain s' where "locate L (cache r) doc t uf = (([], False), s')"
      by (metis prod.collapse)
    then show ?thesis using ne by (simp add: h process_one_def Let_def)
  next
    case False
    then have ne: "\<not> no_exact_occurrence doc h" by (simp add: no_exact_occurrence_def ht)
    with ok ht have s: "\<forall>p\<in>set doc. search_for p t \<noteq> None" by simp
    have l: "locate L (cache r) doc t uf = ((exact_pass doc t, False), cache r)"
      using False by (rule locate_exact)
    from place_exact [OF False s, of "map_color c"]
    have pl: "place_on_pages doc (exact_pass doc t) (map_color c) t \<noteq> Inr NoPageMatches"
      "\<And>e. place_on_pages doc (exact_pass doc t) (map_color c) t \<noteq> Inl e" by simp_all
    show ?thesis
    proof (cases "place_on_pages doc (exact_pass doc t) (map_color c) t")
      case (Inl e)
      with pl(2) [of e] show ?thesis by simp
    next
      case (Inr p)
      with pl(1) False l ne show ?thesis
        by (cases p) (simp_all add: h process_one_def Let_def annotation_fails_def)
    qed
  qed
qed


lemma process_loop_exact_only:
  "(\<forall>h\<in>set hs. \<not> no_exact_occurrence doc h \<longrightarrow>
      (\<forall>p\<in>set doc. search_for p (highlight_text h) \<noteq> None)) \<Longrightarrow>
   (\<forall>h\<in>set hs. uf \<and> no_exact_occurrence doc h \<longrightarrow>
      (\<forall>p\<in>set doc. \<forall>ws. get_text_words p = Some ws \<longrightarrow>
         similar_words L (highlight_text h) ws = [])) \<Longrightarrow>
   \<exists>r'. process_loop L doc uf r hs = Inr r' \<and>
     not_found_highlights r' = not_found_highlights r +
       length (filter (\<lambda>h. no_exact_occurrence doc h \<or> annotation_fails doc h) hs) \<and>
     found_highlights r' = found_highlights r +
       length (filter (\<lambda>h. \<not> (no_exact_occurrence doc h \<or> annotation_fails doc h)) hs) \<and>
     fuzzy_highlights r' = fuzzy_highlights r"
proof (induction hs arbitrary: r)
  case Nil
  then show ?case by simp
next
  case (Cons h hs)
  have "\<not> no_exact_occurrence doc h \<longrightarrow> (\<forall>p\<in>set doc. search_for p (highlight_text h) \<noteq> None)"
    using Cons.prems(1) by simp
  moreover have "uf \<and> no_exact_occurrence doc h \<longrightarrow>
       (\<forall>p\<in>set doc. \<forall>ws. get_text_words p = Some ws \<longrightarrow>
          similar_words L (highlight_text h) ws = [])"
    using Cons.prems(2) by simp
  ultimately obtain r1 where
    s1: "process_one L doc uf r h = Inr r1"
    "not_found_highlights r1 = not_found_highlights r +
       (if no_exact_occurrence doc h \<or> annotation_fails doc h then 1 else 0)"
    "found_highlights r1 = found_highlights r +
       (if no_exact_occurrence doc h \<or> annotation_fails doc h then 0 else 1)"
    "fuzzy_highlights r1 = fuzzy_highlights r"
    using process_one_exact_only [of doc h uf L r] by blast
  have "\<exists>r'. process_loop L doc uf r1 hs = Inr r' \<and>
     not_found_highlights r' = not_found_highlights r1 +
       length (filter (\<lambda>h. no_exact_occurrence doc h \<or> annotation_fails doc h) hs) \<and>
     found_highlights r' = found_highlights r1 +
       length (filter (\<lambda>h. \<not> (no_exact_occurrence doc h \<or> annotation_fails doc h)) hs) \<and>
     fuzzy_highlights r' = fuzzy_highlights r1"
    using Cons.prems by (intro Cons.IH) simp_all
  then obtain r' where
    s2: "process_loop L doc uf r1 hs = Inr r'"
    "not_found_highlights r' = not_found_highlights r1 +
       length (filter (\<lambda>h. no_exact_occurrence doc h \<or> annotation_fails doc h) hs)"
    "found_highlights r' = found_highlights r1 +
       length (filter (\<lambda>h. \<not> (no_exact_occurrence doc h \<or> annotation_fails doc h)) hs)"
    "fuzzy_highlights r' = fuzzy_highlights r1"
    by blast
  have "process_loop L doc uf r (h # hs) = Inr r'" using s1(1) s2(1) by simp
  then show ?case using s1 s2 by simp
qed

lemma no_exact_not_fails: "no_exact_occurrence doc h \<Longrightarrow> \<not> annotation_fails doc h"
  by (cases h) (simp add: no_exact_occurrence_def annotation_fails_def highlight_text_def)

lemma length_filter_disj:
  "(\<And>x. P x \<Longrightarrow> \<not> Q x) \<Longrightarrow>
   length (filter (\<lambda>x. P x \<or> Q x) xs) = length (filter P xs) + length (filter Q xs)"
  by (induction xs) auto

text \<open>
  C8, amended. Take a batch in which the search raises on no page for the records that
  have an exact occurrence, and in which, when fuzzy search is enabled, no word is a
  fuzzy candidate for the records without one. Then the loop processes every record and
  returns, and the not-found counter grows by K + A, where K is the number of records
  with no exact occurrence on any page, which are exactly the records the search does
  not find, and A the number of found records whose annotation fails: an annotation
  failure is caught and counted as not found. Found and not found together grow by the
  number of records.
\<close>

theorem batch_not_found_count:
  assumes "\<forall>h\<in>set hs. \<not> no_exact_occurrence doc h \<longrightarrow>
      (\<forall>p\<in>set doc. search_for p (highlight_text h) \<noteq> None)"
    and "\<forall>h\<in>set hs. uf \<and> no_exact_occurrence doc h \<longrightarrow>
      (\<forall>p\<in>set doc. \<forall>ws. get_text_words p = Some ws \<longrightarrow>
         similar_words L (highlight_text h) ws = [])"
  shows "\<exists>r'. process_loop L doc uf r hs = Inr r' \<and>
     not_found_highlights r' = not_found_highlights r +
       length (filter (no_exact_occurrence doc) hs) + length (filter (annotation_fails doc) hs) \<and>
     found_highlights r' + not_found_highlights r' =
       found_highlights r + not_found_highlights r + length hs \<and>
     (\<forall>h\<in>set hs. \<forall>s.
        (match_kind (fst (locate L s doc (highlight_text h) uf)) = NotFound) =
        no_exact_occurrence doc h)"
proof -
  from process_loop_exact_only [OF assms, of r] obtain r' where
    r': "process_loop L doc uf r hs = Inr r'"
    "not_found_highlights r' = not_found_highlights r +
       length (filter (\<lambda>h. no_exact_occurrence doc h \<or> annotation_fails doc h) hs)"
    by blast
  have 1: "not_found_highlights r' = not_found_highlights r +
       length (filter (no_exact_occurrence doc) hs) + length (filter (annotation_fails doc) hs)"
    using r'(2) length_filter_disj [of "no_exact_occurrence doc" "annotation_fails doc" hs]
      no_exact_not_fails by simp
  have 2: "found_highlights r' + not_found_highlights r' =
       found_highlights r + not_found_highlights r + length hs"
    using process_loop_counts [OF r'(1)] by simp
  have 3: "(match_kind (fst (locate L s doc (highlight_text h) uf)) = NotFound) =
        no_exact_occurrence doc h" if h: "h \<in> set hs" for h s
  proof (cases "no_exact_occurrence doc h")
    case True
    then have e: "exact_pass doc (highlight_text h) = []" by (simp add: no_exact_occurrence_def)
    have "uf \<longrightarrow> (\<forall>p\<in>set doc. \<forall>ws. get_text_words p = Some ws \<longrightarrow>
         similar_words L (highlight_text h) ws = [])"
      using assms(2) h True by blast
    from locate_not_found [OF e this, of s] True show ?thesis by (simp add: match_kind_simps)
  next
    case False
    then have e: "exact_pass doc (highlight_text h) \<noteq> []" by (simp add: no_exact_occurrence_def)
    from locate_exact [OF e, of L s uf] e False show ?thesis by (simp add: match_kind_simps)
  qed
  from r'(1) 1 2 3 show ?thesis by blast
qed

lemma ex_locked_search: "search_for ex_page_locked = ex_search"
  by (simp add: ex_page_locked_def ex_page_def)

text \<open>
  C8, as stated, fails when an annotation fails: on the page whose annotation calls
  raise, the record "test" is found by the exact pass, so no record of the batch is
  unlocatable (K = 0), yet the report counts one record as not found.
\<close>

theorem batch_not_found_count_counterexample:
  "match_kind (fst (locate ex_lib init_state [ex_page_locked] ''test'' True)) = Exact \<and>
   length (filter (\<lambda>h. match_kind (fst (locate ex_lib init_state [ex_page_locked]
       (highlight_text h) True)) = NotFound) [(1996532479, 4, ''test'')]) = 0 \<and>
   process_loop ex_lib [ex_page_locked] True (init_run init_state) [(1996532479, 4, ''test'')] =
     Inr ((init_run init_state)\<lparr>not_found_highlights := 1\<rparr>)"
proof -
  have e: "exact_pass [ex_page_locked] ''test'' = [Quad (114, 100) (134, 100) (114, 112) (134, 112)]"
    by (simp add: find_text_exact_def ex_locked_search ex_search_def Let_def)
  have l: "locate ex_lib s [ex_page_locked] ''test'' True =
     (([Quad (114, 100) (134, 100) (114, 112) (134, 112)], False), s)" for s
    using locate_exact [of "[ex_page_locked]" "''test''" ex_lib s True] e by simp
  have p: "place_on_pages [ex_page_locked] [Quad (114, 100) (134, 100) (114, 112) (134, 112)] c
     ''test'' = Inr PlaceFailed" for c
    by (simp add: ex_page_locked_def ex_page_def ex_search_def add_highlight_annotation_def
        Let_def)
  have o: "process_one ex_lib [ex_page_locked] True (init_run init_state) (1996532479, 4, ''test'') =
     Inr ((init_run init_state)\<lparr>not_found_highlights := 1\<rparr>)"
    by (simp add: process_one_def l p Let_def init_run_def del: place_on_pages.simps)
  show ?thesis
    by (simp add: l o match_kind_simps highlight_text_def)
qed


lemma ex_mixed_fields:
  "search_for ex_page_mixed = ex_search"
  "get_text_words ex_page_mixed =
     Some [(72, 100, 78, 112, ''a''), (82, 100, 110, 112, ''quick''),
           (114, 100, 134, 112, ''test'')]"
  by (simp_all add: ex_page_mixed_def ex_page_def)

lemma ex_mixed_exact:
  "exact_pass [ex_page_mixed] ''zebra'' = []"
  "exact_pass [ex_page_mixed] ''test'' = [Quad (114, 100) (134, 100) (114, 112) (134, 112)]"
  "exact_pass [ex_page_mixed] ''quick'' = [Quad (82, 100) (110, 100) (82, 112) (110, 112)]"
  by (simp_all add: find_text_exact_def ex_mixed_fields ex_search_def Let_def)

lemma ex_mixed_annot:
  "add_highlight_annotation ex_page_mixed [Quad (114, 100) (134, 100) (114, 112) (134, 112)] c t"
  "\<not> add_highlight_annotation ex_page_mixed [Quad (82, 100) (110, 100) (82, 112) (110, 112)] c t"
  by (simp_all add: add_highlight_annotation_def ex_page_mixed_def ex_page_def)

lemma ex_mixed_place:
  "place_on_pages [ex_page_mixed] [Quad (114, 100) (134, 100) (114, 112) (134, 112)] c ''test'' =
     Inr (Placed ex_page_mixed [Quad (114, 100) (134, 100) (114, 112) (134, 112)])"
  "place_on_pages [ex_page_mixed] [Quad (82, 100) (110, 100) (82, 112) (110, 112)] c ''quick'' =
     Inr PlaceFailed"
  by (simp_all add: ex_mixed_fields ex_search_def ex_mixed_annot Let_def)

lemma ex_mixed_outcomes:
  "no_exact_occurrence [ex_page_mixed] (2013265664, 5, ''zebra'')"
  "\<not> no_exact_occurrence [ex_page_mixed] (1996532479, 4, ''test'')"
  "\<not> no_exact_occurrence [ex_page_mixed] (- 256, 5, ''quick'')"
  "\<not> annotation_fails [ex_page_mixed] (2013265664, 5, ''zebra'')"
  "\<not> annotation_fails [ex_page_mixed] (1996532479, 4, ''test'')"
  "annotation_fails [ex_page_mixed] (- 256, 5, ''quick'')"
  by (simp_all add: no_exact_occurrence_def annotation_fails_def highlight_text_def
      ex_mixed_exact ex_mixed_place del: exact_pass.simps place_on_pages.simps)

lemma ex_zebra_no_candidate:
  "similar_words ex_lib ''zebra''
     [(72, 100, 78, 112, ''a''), (82, 100, 110, 112, ''quick''),
      (114, 100, 134, 112, ''test'')] = []"
  by (simp add: ex_lib_def word_text_def fuzzy_threshold_def Let_def)

theorem batch_not_found_count_witness:
  "length (filter (no_exact_occurrence [ex_page_mixed])
     [(2013265664, 5, ''zebra''), (1996532479, 4, ''test''), (- 256, 5, ''quick'')]) = 1 \<and>
   length (filter (annotation_fails [ex_page_mixed])
     [(2013265664, 5, ''zebra''), (1996532479, 4, ''test''), (- 256, 5, ''quick'')]) = 1 \<and>
   (\<exists>r'. process_loop ex_lib [ex_page_mixed] True (init_run init_state)
          [(2013265664, 5, ''zebra''), (1996532479, 4, ''test''), (- 256, 5, ''quick'')] = Inr r' \<and>
        not_found_highlights r' = 2 \<and> found_highlights r' = 1)"
proof -
  let ?hs = "[(2013265664, 5, ''zebra''), (1996532479, 4, ''test''), (- 256, 5, ''quick'')]"
  have h1: "\<forall>h\<in>set ?hs. \<not> no_exact_occurrence [ex_page_mixed] h \<longrightarrow>
      (\<forall>p\<in>set [ex_page_mixed]. search_for p (highlight_text h) \<noteq> None)"
    by (simp add: ex_mixed_fields ex_search_def)
  have h2: "\<forall>h\<in>set ?hs. True \<and> no_exact_occurrence [ex_page_mixed] h \<longrightarrow>
      (\<forall>p\<in>set [ex_page_mixed]. \<forall>ws. get_text_words p = Some ws \<longrightarrow>
         similar_words ex_lib (highlight_text h) ws = [])"
    by (simp add: ex_mixed_outcomes ex_mixed_fields highlight_text_def ex_zebra_no_candidate
        del: similar_words.simps)
  have k: "length (filter (no_exact_occurrence [ex_page_mixed]) ?hs) = 1"
    "length (filter (annotation_fails [ex_page_mixed]) ?hs) = 1"
    by (simp_all add: ex_mixed_outcomes)
  from batch_not_found_count [OF h1 h2, of "init_run init_state"] obtain r' where
    r: "process_loop ex_lib [ex_page_mixed] True (init_run init_state) ?hs = Inr r'"
    "not_found_highlights r' = not_found_highlights (init_run init_state) +
       length (filter (no_exact_occurrence [ex_page_mixed]) ?hs) +
       length (filter (annotation_fails [ex_page_mixed]) ?hs)"
    "found_highlights r' + not_found_highlights r' =
       found_highlights (init_run init_state) + not_found_highlights (init_run init_state) +
       length (?hs :: highlight list)"
    by blast
  have "not_found_highlights r' = 2" "found_highlights r' = 1"
    using r(2,3) unfolding k by (simp_all add: init_run_def)
  with r(1) k show ?thesis by blast
qed

section \<open>Properties of the cache\<close>

lemma cache_consistent_init: "cache_consistent init_state"
  by (simp add: cache_consistent_def init_state_def)

lemma cache_consistent_words:
  "cache_consistent s \<Longrightarrow> cache_consistent (s\<lparr>extractions := extractions s @ [ExtractWords n]\<rparr>)"
  by (simp add: cache_consistent_def)

lemma extract_page_text_consistent:
  assumes c: "cache_consistent s" and e: "extract_page_text s p = Some (t, s')"
  shows "cache_consistent s'"
proof (cases "text_cache s (number p)")
  case (Some a)
  with e have "s' = s" by (simp add: extract_page_text_def Let_def)
  with c show ?thesis by simp
next
  case None
  with e have s': "s' = s\<lparr>text_cache := (text_cache s)(number p \<mapsto> t),
                          extractions := extractions s @ [ExtractText (number p)]\<rparr>"
    by (auto simp: extract_page_text_def Let_def split: option.splits)
  show ?thesis unfolding cache_consistent_def
  proof
    fix n
    from c have "count_list (extractions s) (ExtractText n) =
                 (if text_cache s n = None then 0 else 1)"
      by (simp add: cache_consistent_def)
    with None show "count_list (extractions s') (ExtractText n) =
                    (if text_cache s' n = None then 0 else 1)"
      by (cases "n = number p") (simp_all add: s')
  qed
qed

lemma find_text_fuzzy_consistent:
  assumes "cache_consistent s" "find_text_fuzzy L s p t = (res, s')"
  shows "cache_consistent s'"
proof (cases "extract_page_text s p")
  case None
  with assms show ?thesis by (simp add: find_text_fuzzy_def)
next
  case (Some a)
  obtain pt s1 where a: "a = (pt, s1)" by (cases a)
  have c1: "cache_consistent s1" using extract_page_text_consistent assms(1) Some a by blast
  show ?thesis
  proof (cases "get_text_words p")
    case None
    with assms(2) Some a c1 show ?thesis by (simp add: find_text_fuzzy_def)
  next
    case (Some ws)
    with assms(2) \<open>extract_page_text s p = Some a\<close> a
    have "s' = s1\<lparr>extractions := extractions s1 @ [ExtractWords (number p)]\<rparr>"
      by (auto simp: find_text_fuzzy_def Let_def)
    with c1 show ?thesis by (simp add: cache_consistent_words)
  qed
qed

lemma fuzzy_pass_consistent:
  "cache_consistent s \<Longrightarrow> fuzzy_pass L s doc t = (res, s') \<Longrightarrow> cache_consistent s'"
proof (induction doc arbitrary: s)
  case Nil
  then show ?case by simp
next
  case (Cons a doc)
  obtain fr s1 where f: "find_text_fuzzy L s a t = (fr, s1)"
    by (cases "find_text_fuzzy L s a t")
  have c1: "cache_consistent s1" using find_text_fuzzy_consistent [OF Cons.prems(1) f] .
  show ?case
  proof (cases fr)
    case Nil
    with Cons.prems(2) f have "fuzzy_pass L s1 doc t = (res, s')" by simp
    from Cons.IH [OF c1 this] show ?thesis .
  next
    case (Cons b bs)
    with Cons.prems(2) f have "s' = s1" by simp
    with c1 show ?thesis by simp
  qed
qed

lemma locate_consistent:
  assumes "cache_consistent s"
  shows "cache_consistent (snd (locate L s doc t uf))"
proof (cases "exact_pass doc t = [] \<and> uf")
  case False
  with assms show ?thesis by (auto simp: locate_def)
next
  case True
  obtain res s' where f: "fuzzy_pass L s doc t = (res, s')" by (cases "fuzzy_pass L s doc t")
  have "snd (locate L s doc t uf) = s'"
    using True f by (auto simp: locate_def split: option.splits prod.splits)
  with fuzzy_pass_consistent [OF assms f] show ?thesis by simp
qed

lemma process_one_consistent:
  assumes "cache_consistent (cache r)" "process_one L doc uf r h = Inr r'"
  shows "cache_consistent (cache r')"
proof -
  obtain c n t where h: "h = (c, n, t)" by (cases h)
  from assms(2) [unfolded h] have "cache r' = snd (locate L (cache r) doc t uf)"
    by (cases rule: process_one_cases) simp_all
  with locate_consistent [OF assms(1)] show ?thesis by simp
qed

lemma process_loop_consistent:
  "cache_consistent (cache r) \<Longrightarrow> process_loop L doc uf r hs = Inr r' \<Longrightarrow>
   cache_consistent (cache r')"
proof (induction hs arbitrary: r)
  case Nil
  then show ?case by simp
next
  case (Cons h hs)
  from Cons.prems(2) obtain r1 where
    s1: "process_one L doc uf r h = Inr r1" and s2: "process_loop L doc uf r1 hs = Inr r'"
    by (auto split: sum.splits)
  from Cons.IH [OF process_one_consistent [OF Cons.prems(1) s1] s2] show ?case .
qed

lemma find_text_fuzzy_extracts_words:
  assumes "extract_page_text s p \<noteq> None" "get_text_words p = Some ws"
  shows "count_list (extractions (snd (find_text_fuzzy L s p t))) (ExtractWords (number p)) =
         Suc (count_list (extractions s) (ExtractWords (number p)))"
proof -
  from assms(1) obtain pt s1 where e: "extract_page_text s p = Some (pt, s1)" by auto
  then have "count_list (extractions s1) (ExtractWords (number p)) =
             count_list (extractions s) (ExtractWords (number p))"
    by (auto simp: extract_page_text_def Let_def split: option.splits)
  then show ?thesis using e assms(2) by (simp add: find_text_fuzzy_def Let_def)
qed

text \<open>
  C3, amended: in one run, for every page number, the page text is extracted at most
  once, and exactly once when it is in the cache at the end: \<^verbatim>\<open>extract_page_text\<close>
  keeps it in a cache keyed by page number. The list of words is not cached: every fuzzy
  lookup that reaches a page (its text is cached or can be extracted, and the word
  extraction returns) extracts the words of that page once more.
\<close>

theorem page_text_extracted_once:
  "(process_loop L doc uf (init_run init_state) hs = Inr r \<longrightarrow>
      count_list (extractions (cache r)) (ExtractText n) \<le> 1 \<and>
      (count_list (extractions (cache r)) (ExtractText n) = 1) = (text_cache (cache r) n \<noteq> None)) \<and>
   (extract_page_text s p \<noteq> None \<and> get_text_words p = Some ws \<longrightarrow>
      count_list (extractions (snd (find_text_fuzzy L s p t))) (ExtractWords (number p)) =
        Suc (count_list (extractions s) (ExtractWords (number p))))"
proof (intro conjI impI)
  assume a: "process_loop L doc uf (init_run init_state) hs = Inr r"
  have "cache_consistent (cache (init_run init_state))"
    by (simp add: init_run_def cache_consistent_init)
  from process_loop_consistent [OF this a]
  have c: "count_list (extractions (cache r)) (ExtractText n) =
           (if text_cache (cache r) n = None then 0 else 1)"
    by (simp add: cache_consistent_def)
  show "count_list (extractions (cache r)) (ExtractText n) \<le> 1" unfolding c by simp
  show "(count_list (extractions (cache r)) (ExtractText n) = 1) = (text_cache (cache r) n \<noteq> None)"
    unfolding c by simp
next
  assume "extract_page_text s p \<noteq> None \<and> get_text_words p = Some ws"
  then show "count_list (extractions (snd (find_text_fuzzy L s p t))) (ExtractWords (number p)) =
        Suc (count_list (extractions s) (ExtractWords (number p)))"
    using find_text_fuzzy_extracts_words by blast
qed

lemma ex_locate_fix:
  "locate ex_lib
     \<lparr>text_cache = [0 \<mapsto> ''a quick test''], extractions = [ExtractText 0, ExtractWords 0]\<rparr>
     [ex_page] ''quick fix'' True =
     (([Quad (82, 100) (110, 100) (110, 112) (82, 112)], True),
      \<lparr>text_cache = [0 \<mapsto> ''a quick test''],
       extractions = [ExtractText 0, ExtractWords 0, ExtractWords 0]\<rparr>)"
  by (simp add: locate_def find_text_exact_def ex_page_def ex_search_def find_text_fuzzy_def
      extract_page_text_def ex_lib_def word_text_def fuzzy_threshold_def
      max_fuzzy_results_def word_quad_def Let_def)

lemma ex_place_fix:
  "place_on_pages [ex_page] [q] c ''quick fix'' = Inr NoPageMatches"
  by (simp add: ex_page_def ex_search_def Let_def)

lemma ex_run_two_fuzzy:
  "process_loop ex_lib [ex_page] True (init_run init_state)
     [(- 256, 19, ''the quick brown fox''), (16711680, 9, ''quick fix'')] =
   Inr \<lparr>found_highlights = 0, not_found_highlights = 2, fuzzy_highlights = 0, annots = [],
        cache = \<lparr>text_cache = [0 \<mapsto> ''a quick test''],
                  extractions = [ExtractText 0, ExtractWords 0, ExtractWords 0]\<rparr>\<rparr>"
proof -
  have "process_one ex_lib [ex_page] True
      \<lparr>found_highlights = 0, not_found_highlights = 1, fuzzy_highlights = 0, annots = [],
       cache = \<lparr>text_cache = [0 \<mapsto> ''a quick test''],
                 extractions = [ExtractText 0, ExtractWords 0]\<rparr>\<rparr>
      (16711680, 9, ''quick fix'') =
    Inr \<lparr>found_highlights = 0, not_found_highlights = 2, fuzzy_highlights = 0, annots = [],
        cache = \<lparr>text_cache = [0 \<mapsto> ''a quick test''],
                  extractions = [ExtractText 0, ExtractWords 0, ExtractWords 0]\<rparr>\<rparr>"
    by (simp add: process_one_def ex_locate_fix ex_place_fix Let_def del: place_on_pages.simps)
  then show ?thesis by (simp add: ex_process_fox)
qed

text \<open>
  C3, as stated, fails for the list of words: two records that both go to the fuzzy
  pass on the one-page document extract the words of page 0 twice, and its text once.
\<close>

theorem word_list_extracted_twice_counterexample:
  "process_loop ex_lib [ex_page] True (init_run init_state)
     [(- 256, 19, ''the quick brown fox''), (16711680, 9, ''quick fix'')] =
   Inr \<lparr>found_highlights = 0, not_found_highlights = 2, fuzzy_highlights = 0, annots = [],
        cache = \<lparr>text_cache = [0 \<mapsto> ''a quick test''],
                  extractions = [ExtractText 0, ExtractWords 0, ExtractWords 0]\<rparr>\<rparr> \<and>
   count_list [ExtractText 0, ExtractWords 0, ExtractWords 0] (ExtractWords 0) = 2 \<and>
   \<not> count_list [ExtractText 0, ExtractWords 0, ExtractWords 0] (ExtractWords 0) \<le> 1"
  by (simp add: ex_run_two_fuzzy del: process_loop.simps)

theorem page_text_extracted_once_witness:
  "process_loop ex_lib [ex_page] True (init_run init_state)
     [(- 256, 19, ''the quick brown fox''), (16711680, 9, ''quick fix'')] =
   Inr \<lparr>found_highlights = 0, not_found_highlights = 2, fuzzy_highlights = 0, annots = [],
        cache = \<lparr>text_cache = [0 \<mapsto> ''a quick test''],
                  extractions = [ExtractText 0, ExtractWords 0, ExtractWords 0]\<rparr>\<rparr> \<and>
   count_list [ExtractText 0, ExtractWords 0, ExtractWords 0] (ExtractText 0) \<le> 1 \<and>
   count_list (extractions (snd (find_text_fuzzy ex_lib init_state ex_page ''quick fix'')))
     (ExtractWords 0) = 1"
proof -
  let ?r = "\<lparr>found_highlights = 0, not_found_highlights = 2, fuzzy_highlights = 0, annots = [],
        cache = \<lparr>text_cache = [0 \<mapsto> ''a quick test''],
                  extractions = [ExtractText 0, ExtractWords 0, ExtractWords 0]\<rparr>\<rparr>"
  let ?ws = "[(72, 100, 78, 112, ''a''), (82, 100, 110, 112, ''quick''),
              (114, 100, 134, 112, ''test'')]"
  note T = page_text_extracted_once [of ex_lib "[ex_page]" True
      "[(- 256, 19, ''the quick brown fox''), (16711680, 9, ''quick fix'')]" ?r
      0 init_state ex_page ?ws "''quick fix''"]
  have nr: "number ex_page = 0" by (simp add: ex_page_def)
  have pre: "extract_page_text init_state ex_page \<noteq> None \<and> get_text_words ex_page = Some ?ws"
    by (simp add: extract_page_text_def init_state_def ex_page_def Let_def)
  from T ex_run_two_fuzzy
  have a: "count_list (extractions (cache ?r)) (ExtractText 0) \<le> 1" by blast
  from T pre
  have b: "count_list (extractions (snd (find_text_fuzzy ex_lib init_state ex_page ''quick fix'')))
             (ExtractWords (number ex_page)) =
           Suc (count_list (extractions init_state) (ExtractWords (number ex_page)))"
    by blast
  from a have a': "count_list [ExtractText 0, ExtractWords 0, ExtractWords 0] (ExtractText 0) \<le> 1"
    by simp
  from b have b': "count_list
      (extractions (snd (find_text_fuzzy ex_lib init_state ex_page ''quick fix'')))
      (ExtractWords 0) = 1"
    by (simp add: nr init_state_def)
  from ex_run_two_fuzzy a' b' show ?thesis by blast
qed

section \<open>Properties of the output path\<close>

lemma stem_suffix: "stem p @ suffix p = name p"
  by (simp add: stem_def suffix_def split: option.splits)

lemma default_output_path_differs:
  "default_output_path pdf \<noteq> pdf" "default_output_path_simple pdf \<noteq> pdf"
proof -
  have "length (name (default_output_path pdf)) = length (name pdf) + 12"
    using stem_suffix [of pdf, symmetric] by (simp add: default_output_path_def)
  then show "default_output_path pdf \<noteq> pdf" by auto
  have "length (name (default_output_path_simple pdf)) = length (name pdf) + 17"
    using stem_suffix [of pdf, symmetric] by (simp add: default_output_path_simple_def)
  then show "default_output_path_simple pdf \<noteq> pdf" by auto
qed

lemma write_file_other: "q \<noteq> p \<Longrightarrow> write_file fs p w q = fs q"
  by (simp add: write_file_def split: option.splits)

lemma process_highlights_frame:
  "q \<noteq> (case output_path of None \<Rightarrow> default_output_path (pdf_path e) | Some p \<Rightarrow> p) \<Longrightarrow>
   files_after (process_highlights L e output_path uf) q = files e q"
  by (simp add: process_highlights_def Let_def write_file_other
      split: option.splits sum.splits prod.splits)

lemma process_highlights_returned:
  "returned (process_highlights L e output_path uf) = Inr (Some q) \<Longrightarrow>
   q = (case output_path of None \<Rightarrow> default_output_path (pdf_path e) | Some p \<Rightarrow> p)"
  by (simp add: process_highlights_def Let_def
      split: option.splits sum.splits prod.splits if_splits)

lemma process_sample_highlights_frame:
  "q \<noteq> (case output_path of None \<Rightarrow> default_output_path_simple (simple_pdf_path e) | Some p \<Rightarrow> p) \<Longrightarrow>
   files_after (process_sample_highlights e output_path) q = simple_files e q"
  by (simp add: process_sample_highlights_def Let_def write_file_other
      split: option.splits sum.splits prod.splits)

lemma process_sample_highlights_returned:
  "returned (process_sample_highlights e output_path) = Inr (Some q) \<Longrightarrow>
   q = (case output_path of None \<Rightarrow> default_output_path_simple (simple_pdf_path e) | Some p \<Rightarrow> p)"
  by (simp add: process_sample_highlights_def Let_def
      split: option.splits sum.splits prod.splits if_splits)

text \<open>
  C9, amended: with no explicit output path, the output path is in the directory of the
  input and its name is the stem of the input name, a fixed suffix and the extension of
  the input name: the suffix is "_highlighted" in the main program and
  "_test_highlighted" in the simplified one. This path always differs from the input
  path. A run writes no other path, so the input file is as it was, whatever the run
  does; the path a run returns is this path; and when the main program reaches the save
  and the save writes, the file is at this path.
\<close>

theorem default_output_leaves_input:
  "name (default_output_path pdf) = stem pdf @ ''_highlighted'' @ suffix pdf \<and>
   name (default_output_path_simple pdf) = stem pdf @ ''_test_highlighted'' @ suffix pdf \<and>
   parent (default_output_path pdf) = parent pdf \<and>
   parent (default_output_path_simple pdf) = parent pdf \<and>
   stem pdf @ suffix pdf = name pdf \<and>
   default_output_path pdf \<noteq> pdf \<and> default_output_path_simple pdf \<noteq> pdf \<and>
   files_after (process_highlights L e None uf) (pdf_path e) = files e (pdf_path e) \<and>
   files_after (process_sample_highlights es None) (simple_pdf_path es) =
     simple_files es (simple_pdf_path es) \<and>
   (\<forall>q. q \<noteq> default_output_path (pdf_path e) \<longrightarrow>
      files_after (process_highlights L e None uf) q = files e q) \<and>
   (\<forall>q. q \<noteq> default_output_path_simple (simple_pdf_path es) \<longrightarrow>
      files_after (process_sample_highlights es None) q = simple_files es q) \<and>
   (\<forall>q. returned (process_highlights L e None uf) = Inr (Some q) \<longrightarrow>
      q = default_output_path (pdf_path e)) \<and>
   (\<forall>q. returned (process_sample_highlights es None) = Inr (Some q) \<longrightarrow>
      q = default_output_path_simple (simple_pdf_path es)) \<and>
   (\<forall>doc r c. db_highlights e \<noteq> [] \<and> fitz_open e = Some doc \<and>
      process_loop L doc uf (init_run init_state) (db_highlights e) = Inr r \<and>
      doc_save e (default_output_path (pdf_path e)) (annots r) = (True, Some c) \<longrightarrow>
      returned (process_highlights L e None uf) = Inr (Some (default_output_path (pdf_path e))) \<and>
      files_after (process_highlights L e None uf) (default_output_path (pdf_path e)) = Some c)"
proof -
  have 8: "returned (process_highlights L e None uf) = Inr (Some (default_output_path (pdf_path e))) \<and>
      files_after (process_highlights L e None uf) (default_output_path (pdf_path e)) = Some c"
    if "db_highlights e \<noteq> [] \<and> fitz_open e = Some doc \<and>
      process_loop L doc uf (init_run init_state) (db_highlights e) = Inr r \<and>
      doc_save e (default_output_path (pdf_path e)) (annots r) = (True, Some c)" for doc r c
    using that by (simp add: process_highlights_def Let_def write_file_def)
  have 1: "files_after (process_highlights L e None uf) q = files e q"
    if "q \<noteq> default_output_path (pdf_path e)" for q
    using process_highlights_frame [where q = q and output_path = None and e = e and L = L and uf = uf] that
    by simp
  have 2: "files_after (process_sample_highlights es None) q = simple_files es q"
    if "q \<noteq> default_output_path_simple (simple_pdf_path es)" for q
    using process_sample_highlights_frame [where q = q and output_path = None and e = es] that
    by simp
  have 3: "q = default_output_path (pdf_path e)"
    if "returned (process_highlights L e None uf) = Inr (Some q)" for q
    using process_highlights_returned [OF that] by simp
  have 4: "q = default_output_path_simple (simple_pdf_path es)"
    if "returned (process_sample_highlights es None) = Inr (Some q)" for q
    using process_sample_highlights_returned [OF that] by simp
  have 5: "files_after (process_highlights L e None uf) (pdf_path e) = files e (pdf_path e)"
    using 1 [of "pdf_path e"] default_output_path_differs(1) [of "pdf_path e"] by simp
  have 6: "files_after (process_sample_highlights es None) (simple_pdf_path es) =
     simple_files es (simple_pdf_path es)"
    using 2 [of "simple_pdf_path es"] default_output_path_differs(2) [of "simple_pdf_path es"]
    by simp
  have 7: "name (default_output_path pdf) = stem pdf @ ''_highlighted'' @ suffix pdf"
    "name (default_output_path_simple pdf) = stem pdf @ ''_test_highlighted'' @ suffix pdf"
    "parent (default_output_path pdf) = parent pdf"
    "parent (default_output_path_simple pdf) = parent pdf"
    by (simp_all add: default_output_path_def default_output_path_simple_def)
  from 1 2 3 4 5 6 7 8 stem_suffix [of pdf] default_output_path_differs [of pdf]
  show ?thesis by blast
qed

lemma ex_pdf_parts: "stem ex_pdf = ''book''" "suffix ex_pdf = ''.pdf''"
  by (simp_all add: stem_def suffix_def ex_pdf_def)

lemma ex_default_paths:
  "default_output_path ex_pdf = Path [''books''] ''book_highlighted.pdf''"
  "default_output_path_simple ex_pdf = Path [''books''] ''book_test_highlighted.pdf''"
  by (simp_all add: default_output_path_def default_output_path_simple_def ex_pdf_parts)
     (simp_all add: ex_pdf_def)

lemma ex_simple_run:
  "process_sample_highlights (ex_env_simple [(1996532479, 4, ''test'')]) None =
     \<lparr>returned = Inr (Some (Path [''books''] ''book_test_highlighted.pdf'')),
      files_after = [ex_pdf \<mapsto> [], Path [''books''] ''book_test_highlighted.pdf'' \<mapsto> []],
      final_report = Some \<lparr>rep_total = 1, rep_found = 1, rep_fuzzy = 0, rep_not_found = 0\<rparr>\<rparr>"
  by (simp add: process_sample_highlights_def ex_env_simple_def ex_default_paths write_file_def
      Let_def)

text \<open>
  C9, as stated, fails for the simplified program: for "book.pdf" it writes
  "book_test_highlighted.pdf", not the stem followed by "_highlighted" and the
  extension.
\<close>

theorem default_output_leaves_input_counterexample:
  "returned (process_sample_highlights (ex_env_simple [(1996532479, 4, ''test'')]) None) =
     Inr (Some (Path [''books''] ''book_test_highlighted.pdf'')) \<and>
   stem ex_pdf @ ''_highlighted'' @ suffix ex_pdf = ''book_highlighted.pdf'' \<and>
   Path [''books''] ''book_test_highlighted.pdf'' \<noteq>
     Path (parent ex_pdf) (stem ex_pdf @ ''_highlighted'' @ suffix ex_pdf)"
  by (simp add: ex_simple_run ex_pdf_parts)

lemma ex_main_run:
  "process_highlights ex_lib (ex_env [(1996532479, 4, ''test'')]) None True =
     \<lparr>returned = Inr (Some (Path [''books''] ''book_highlighted.pdf'')),
      files_after =
        [ex_pdf \<mapsto> [],
         Path [''books''] ''book_highlighted.pdf'' \<mapsto>
           [(0, [Quad (114, 100) (134, 100) (114, 112) (134, 112)], (1, 1, 0))]],
      final_report = Some \<lparr>rep_total = 1, rep_found = 1, rep_fuzzy = 0, rep_not_found = 0\<rparr>\<rparr>"
  by (simp add: process_highlights_def ex_env_def ex_default_paths write_file_def
      ex_process_test report_of_def init_run_def Let_def)

theorem default_output_leaves_input_witness:
  "returned (process_highlights ex_lib (ex_env [(1996532479, 4, ''test'')]) None True) =
     Inr (Some (Path [''books''] ''book_highlighted.pdf'')) \<and>
   default_output_path ex_pdf = Path [''books''] ''book_highlighted.pdf'' \<and>
   files_after (process_highlights ex_lib (ex_env [(1996532479, 4, ''test'')]) None True)
     (Path [''books''] ''book_highlighted.pdf'') =
     Some [(0, [Quad (114, 100) (134, 100) (114, 112) (134, 112)], (1, 1, 0))] \<and>
   files_after (process_highlights ex_lib (ex_env [(1996532479, 4, ''test'')]) None True) ex_pdf =
     Some [] \<and>
   files_after (process_sample_highlights (ex_env_simple [(1996532479, 4, ''test'')]) None) ex_pdf =
     Some []"
proof -
  note T = default_output_leaves_input [of ex_pdf ex_lib "ex_env [(1996532479, 4, ''test'')]" True
      "ex_env_simple [(1996532479, 4, ''test'')]"]
  have p: "pdf_path (ex_env [(1996532479, 4, ''test'')]) = ex_pdf"
    "files (ex_env [(1996532479, 4, ''test'')]) ex_pdf = Some []"
    "simple_pdf_path (ex_env_simple [(1996532479, 4, ''test'')]) = ex_pdf"
    "simple_files (ex_env_simple [(1996532479, 4, ''test'')]) ex_pdf = Some []"
    by (simp_all add: ex_env_def ex_env_simple_def)
  from T have
    "files_after (process_highlights ex_lib (ex_env [(1996532479, 4, ''test'')]) None True)
       (pdf_path (ex_env [(1996532479, 4, ''test'')])) =
     files (ex_env [(1996532479, 4, ''test'')]) (pdf_path (ex_env [(1996532479, 4, ''test'')]))"
    "files_after (process_sample_highlights (ex_env_simple [(1996532479, 4, ''test'')]) None)
       (simple_pdf_path (ex_env_simple [(1996532479, 4, ''test'')])) =
     simple_files (ex_env_simple [(1996532479, 4, ''test'')])
       (simple_pdf_path (ex_env_simple [(1996532479, 4, ''test'')]))"
    by blast+
  then have a: "files_after (process_highlights ex_lib (ex_env [(1996532479, 4, ''test'')]) None True)
       ex_pdf = Some []"
    "files_after (process_sample_highlights (ex_env_simple [(1996532479, 4, ''test'')]) None) ex_pdf =
       Some []"
    by (simp_all add: p)
  have b: "returned (process_highlights ex_lib (ex_env [(1996532479, 4, ''test'')]) None True) =
     Inr (Some (Path [''books''] ''book_highlighted.pdf''))"
    "files_after (process_highlights ex_lib (ex_env [(1996532479, 4, ''test'')]) None True)
     (Path [''books''] ''book_highlighted.pdf'') =
     Some [(0, [Quad (114, 100) (134, 100) (114, 112) (134, 112)], (1, 1, 0))]"
    by (simp_all add: ex_main_run)
  from a b ex_default_paths(1) show ?thesis by blast
qed

end
